theory Spec2Isabelle
  imports Main
begin

section \<open>Errors raised by the analysed functions\<close>

text \<open>
  Every exception the modelled Python code can raise is a value of this type; a function
  that can raise returns \<open>error + 'a\<close>, with \<open>Inl\<close> for the exception.
  The three \<open>ValueError\<close>s of \<open>infer_arg_types\<close> are kept apart by their messages.
\<close>

datatype error =
    AssertionError
  | AttributeError
  | IndexError
  | TypeError
  | LookupError
  | SchemaError
  | RecursionError
  | ValueError_unsupported_operator
  | ValueError_cannot_infer
  | ValueError_ambiguous_resolution

section \<open>Path identity: \<open>LinearPath\<close>\<close>

text \<open>
  A link prototype, as far as \<open>LinearPath.add\<close> reads it: its name, the result of its
  \<open>generic()\<close> method and its \<open>bases\<close> list.
\<close>

datatype link = Link (link_name: string) (generic: bool) (bases: "link list")

text \<open>
  A \<open>LinearPath\<close> is a Python list whose elements are node prototypes (concepts, given
  by name) and \<open>(link, direction)\<close> tuples.
\<close>

datatype path_elem = Node string | Step link string

type_synonym LinearPath = "path_elem list"

text \<open>
  The \<open>for i in range(1, len(self) - 1, 2)\<close> loop of \<open>LinearPath.__eq__\<close>, started at
  index \<open>i\<close>: a mismatch at \<open>i\<close> or at \<open>i + 1\<close> breaks out of the loop (then the method
  returns False), exhausting the range runs the \<open>else\<close> clause (True).
\<close>

function eq_loop :: "LinearPath \<Rightarrow> LinearPath \<Rightarrow> nat \<Rightarrow> bool" where
  "eq_loop self other i =
     (if i < length self - 1 then
        (if self ! i \<noteq> other ! i then False
         else if self ! (i + 1) \<noteq> other ! (i + 1) then False
         else eq_loop self other (i + 2))
      else True)"
  by pat_completeness auto
termination
  by (relation "measure (\<lambda>(self, other, i). length self - i)") auto

declare eq_loop.simps [simp del]

text \<open>
  \<open>LinearPath.__eq__(self, other)\<close> for \<open>other\<close> a \<open>LinearPath\<close> (for any other
  operand the method returns \<open>NotImplemented\<close>).
\<close>

definition LinearPath_eq :: "LinearPath \<Rightarrow> LinearPath \<Rightarrow> bool" where
  "LinearPath_eq self other =
     (if length other \<noteq> length self then False
      else if length self = 0 then True
      else if self ! 0 \<noteq> other ! 0 then False
      else eq_loop self other 1)"

text \<open>
  \<open>LinearPath.add(self, link, direction, target)\<close>: a link that is not generic is
  replaced by \<open>link.bases[0]\<close> (IndexError when it has no bases); the step and the target
  are appended.
\<close>

definition add :: "LinearPath \<Rightarrow> link \<Rightarrow> string \<Rightarrow> string \<Rightarrow> error + LinearPath" where
  "add self l direction target =
     (if \<not> generic l then
        (case bases l of
           [] \<Rightarrow> Inl IndexError
         | b # _ \<Rightarrow> Inr (self @ [Step b direction, Node target]))
      else Inr (self @ [Step l direction, Node target]))"

text \<open>
  The normalisation the specification describes, for comparison with \<open>add\<close>: the topmost
  base of a link, reached by following the first base until a link has none.
\<close>

fun topmost_base :: "link \<Rightarrow> link" where
  "topmost_base (Link n g []) = Link n g []"
| "topmost_base (Link n g (b # bs)) = topmost_base b"

section \<open>Schema values and the schema catalogue\<close>

text \<open>
  The Python values the type inference passes around: \<open>None\<close>, an instance of
  \<open>ProtoObject\<close> or \<open>PrototypeClass\<close> (a schema type handle, given by name), any other
  object, and a tuple or list of values.
\<close>

datatype pyval = PNone | Proto string | NonProto string | Seq "pyval list"

text \<open>Truth value of a Python value in an \<open>if\<close>: \<open>None\<close> and an empty sequence are false.\<close>

fun truthy :: "pyval \<Rightarrow> bool" where
  "truthy PNone = False"
| "truthy (Seq xs) = (xs \<noteq> [])"
| "truthy _ = True"

text \<open>\<open>isinstance(v, (s_obj.ProtoObject, s_obj.PrototypeClass))\<close>.\<close>

fun is_prototype :: "pyval \<Rightarrow> bool" where
  "is_prototype (Proto n) = True"
| "is_prototype _ = False"

text \<open>
  An operator object, with the operator classes of \<open>ast.ops\<close> and \<open>irast\<close> it is an
  instance of; \<open>isinstance_op\<close> is the \<open>isinstance\<close> test on it.
\<close>

datatype opclass =
    EdgeDBMatchOperator | ComparisonOperator | ArithmeticOperator
  | MembershipOperator | BooleanOperator | TypeCheckOperator

datatype operator = Operator (op_name: string) (op_classes: "opclass list")

definition isinstance_op :: "operator \<Rightarrow> opclass \<Rightarrow> bool" where
  "isinstance_op op c = (c \<in> set (op_classes op))"

text \<open>
  The first argument of \<open>TypeRules.get_result\<close>: the operator itself, or the tuple
  \<open>(op, 'reversed')\<close>.
\<close>

datatype rule_key = Fwd operator | Reversed operator

text \<open>
  The schema modules are not part of the analysed sources. Their operations are the fields
  of this record, so every statement below holds for any schema catalogue and any
  type-rule table; each operation may raise.
  \<^item> \<open>get\<close>: \<open>schema.get(name)\<close>;
  \<^item> \<open>resolve_pointer\<close>: \<open>concept.resolve_pointer(schema, name, look_in_children=True)\<close>;
  \<^item> \<open>getptr\<close>: \<open>link.getptr(schema, name)\<close>;
  \<^item> \<open>ptr_target\<close>: the \<open>target\<close> attribute of a pointer;
  \<^item> \<open>returntype\<close>: the \<open>returntype\<close> attribute of a function object;
  \<^item> \<open>get_prototype_nearest_common_ancestor\<close>: the function of that name of \<open>s_utils\<close>;
  \<^item> \<open>get_result\<close>: \<open>s_types.TypeRules.get_result(key, types, schema)\<close>;
  \<^item> \<open>from_subtypes\<close>: \<open>s_obj.Collection.get_class(maintype).from_subtypes(types)\<close>;
  \<^item> \<open>Set_of\<close>: \<open>s_obj.Set(element_type=t)\<close>.
\<close>

record schema =
  get :: "string \<Rightarrow> error + pyval"
  resolve_pointer :: "pyval \<Rightarrow> string \<Rightarrow> error + pyval"
  getptr :: "pyval \<Rightarrow> string \<Rightarrow> error + pyval"
  ptr_target :: "pyval \<Rightarrow> error + pyval"
  returntype :: "pyval \<Rightarrow> error + pyval"
  get_prototype_nearest_common_ancestor :: "pyval list \<Rightarrow> error + pyval"
  get_result :: "rule_key \<Rightarrow> pyval list \<Rightarrow> error + pyval"
  from_subtypes :: "string \<Rightarrow> pyval list \<Rightarrow> error + pyval"
  Set_of :: "pyval \<Rightarrow> error + pyval"

section \<open>IR nodes\<close>

text \<open>
  Modelled from the spec: the node classes of \<open>irast\<close>, whose declarations are not part
  of the analysed sources. The specification gives them as a tagged union; they are the
  classes the analysed functions dispatch on, each with the attributes those functions
  read, in this order:
  \<^item> \<open>AtomicRefSimple\<close>, \<open>LinkPropRefSimple\<close>: \<open>ref\<close>, \<open>name\<close>;
  \<^item> \<open>AtomicRefExpr\<close>, \<open>LinkPropRefExpr\<close> (the two \<open>BaseRefExpr\<close> classes): \<open>expr\<close>;
  \<^item> \<open>Record\<close>: \<open>concept\<close>, \<open>elements\<close>; \<open>Sequence\<close>: \<open>elements\<close>;
  \<^item> \<open>FunctionCall\<close>: \<open>name\<close>, \<open>args\<close>, \<open>agg_sort\<close>, \<open>agg_filter\<close>, \<open>partition\<close>;
  \<^item> \<open>Constant\<close>: \<open>expr\<close>, \<open>type\<close>, \<open>index\<close>;
  \<^item> \<open>BinOp\<close>: \<open>left\<close>, \<open>op\<close>, \<open>right\<close>; \<open>UnaryOp\<close>: \<open>op\<close>, \<open>expr\<close>;
  \<^item> \<open>EntitySet\<close>: \<open>concept\<close>, \<open>rlink\<close>; \<open>EntityLink\<close>: \<open>source\<close>, \<open>target\<close>, \<open>link_proto\<close>;
  \<^item> \<open>PathCombination\<close>: its class (\<open>Disjunction\<close> or \<open>Conjunction\<close>) and \<open>paths\<close>;
  \<^item> \<open>TypeCast\<close>: \<open>expr\<close>, \<open>type.maintype\<close>, \<open>type.subtypes\<close>;
  \<^item> \<open>GraphExpr\<close>: \<open>generator\<close>, \<open>selector\<close>, \<open>grouper\<close>, \<open>sorter\<close>;
  \<^item> \<open>SelectorExpr\<close>, \<open>SortExpr\<close>, \<open>ExistPred\<close>, \<open>NoneTest\<close>: \<open>expr\<close>; \<open>SubgraphRef\<close>: \<open>ref\<close>;
  \<^item> \<open>InlineFilter\<close>, \<open>InlinePropFilter\<close>: \<open>ref\<close>, \<open>expr\<close>.

  Python is dynamically typed: an attribute may hold \<open>None\<close>, which is the value
  \<open>PyNone\<close> here, and a function that returns a node or \<open>None\<close> returns an \<open>ir\<close>.
  A frozenset of nodes is the list of its members in some iteration order, without
  repetition; statements about it are made on the \<open>set\<close> of that list.
\<close>

datatype cls = Disjunction | Conjunction

datatype ir =
    PyNone
  | MetaRef
  | AtomicRefSimple ir string
  | LinkPropRefSimple ir string
  | AtomicRefExpr ir
  | LinkPropRefExpr ir
  | Record pyval "ir list"
  | Sequence "ir list"
  | FunctionCall string "ir list" "ir list" ir "ir list"
  | Constant ir pyval "nat option"
  | BinOp ir operator ir
  | UnaryOp operator ir
  | EntitySet pyval ir
  | EntityLink ir ir pyval
  | PathCombination cls "ir list"
  | TypeCast ir string "string list"
  | GraphExpr ir "ir list" "ir list" "ir list"
  | SelectorExpr ir
  | SortExpr ir
  | SubgraphRef ir
  | ExistPred ir
  | NoneTest ir
  | InlineFilter ir ir
  | InlinePropFilter ir ir

text \<open>
  Attribute reads on a node whose class is not known where the read happens
  (\<open>x.expr\<close>, \<open>x.concept\<close>, ...): the attribute's value, or AttributeError for a value
  without that attribute.
\<close>

fun expr_attr :: "ir \<Rightarrow> error + ir" where
  "expr_attr (AtomicRefExpr e) = Inr e"
| "expr_attr (LinkPropRefExpr e) = Inr e"
| "expr_attr (Constant e t i) = Inr e"
| "expr_attr (UnaryOp op e) = Inr e"
| "expr_attr (TypeCast e m s) = Inr e"
| "expr_attr (SelectorExpr e) = Inr e"
| "expr_attr (SortExpr e) = Inr e"
| "expr_attr (ExistPred e) = Inr e"
| "expr_attr (NoneTest e) = Inr e"
| "expr_attr (InlineFilter r e) = Inr e"
| "expr_attr (InlinePropFilter r e) = Inr e"
| "expr_attr _ = Inl AttributeError"

fun concept_attr :: "ir \<Rightarrow> error + pyval" where
  "concept_attr (EntitySet c rl) = Inr c"
| "concept_attr (Record c es) = Inr c"
| "concept_attr _ = Inl AttributeError"

fun link_proto_attr :: "ir \<Rightarrow> error + pyval" where
  "link_proto_attr (EntityLink s t lp) = Inr lp"
| "link_proto_attr _ = Inl AttributeError"

fun source_attr :: "ir \<Rightarrow> error + ir" where
  "source_attr (EntityLink s t lp) = Inr s"
| "source_attr _ = Inl AttributeError"

fun rlink_attr :: "ir \<Rightarrow> error + ir" where
  "rlink_attr (EntitySet c rl) = Inr rl"
| "rlink_attr _ = Inl AttributeError"

fun paths_attr :: "ir \<Rightarrow> error + ir list" where
  "paths_attr (PathCombination c ps) = Inr ps"
| "paths_attr _ = Inl AttributeError"

text \<open>\<open>isinstance(path, c)\<close> for a combination class, and \<open>isinstance(path, irast.PathCombination)\<close>.\<close>

fun isinstance_cls :: "ir \<Rightarrow> cls \<Rightarrow> bool" where
  "isinstance_cls (PathCombination c ps) c' = (c = c')"
| "isinstance_cls _ c' = False"

fun is_PathCombination :: "ir \<Rightarrow> bool" where
  "is_PathCombination (PathCombination c ps) = True"
| "is_PathCombination _ = False"

fun is_Constant :: "ir \<Rightarrow> bool" where
  "is_Constant (Constant e t i) = True"
| "is_Constant _ = False"

fun is_BinOp :: "ir \<Rightarrow> bool" where
  "is_BinOp (BinOp l op r) = True"
| "is_BinOp _ = False"

section \<open>Loops that can raise, and Python sets as lists\<close>

text \<open>
  A \<open>for\<close> loop over a list whose body updates a state and can raise, and a list
  comprehension whose element expression can raise: the first exception ends the loop.
\<close>

fun fold_err :: "('a \<Rightarrow> 's \<Rightarrow> error + 's) \<Rightarrow> 'a list \<Rightarrow> 's \<Rightarrow> error + 's" where
  "fold_err f [] s = Inr s"
| "fold_err f (x # xs) s = (case f x s of Inl e \<Rightarrow> Inl e | Inr s' \<Rightarrow> fold_err f xs s')"

fun map_err :: "('a \<Rightarrow> error + 'b) \<Rightarrow> 'a list \<Rightarrow> error + 'b list" where
  "map_err f [] = Inr []"
| "map_err f (x # xs) =
     (case f x of
        Inl e \<Rightarrow> Inl e
      | Inr y \<Rightarrow> (case map_err f xs of Inl e \<Rightarrow> Inl e | Inr ys \<Rightarrow> Inr (y # ys)))"

lemma fold_err_cong [fundef_cong]:
  "xs = ys \<Longrightarrow> s = t \<Longrightarrow> (\<And>x u. x \<in> set ys \<Longrightarrow> f x u = g x u)
     \<Longrightarrow> fold_err f xs s = fold_err g ys t"
  by (induction ys arbitrary: xs s t) (auto split: sum.splits)

text \<open>
  \<open>s.add(x)\<close> and \<open>s.update(xs)\<close> on a set kept as a list without repetition, and
  \<open>set(xs)\<close> / \<open>frozenset(xs)\<close> of an iterable.
\<close>

definition set_add :: "'a \<Rightarrow> 'a list \<Rightarrow> 'a list" where
  "set_add x s = (if x \<in> set s then s else s @ [x])"

definition set_update :: "'a list \<Rightarrow> 'a list \<Rightarrow> 'a list" where
  "set_update s xs = foldl (\<lambda>s x. set_add x s) s xs"

definition frozenset :: "'a list \<Rightarrow> 'a list" where
  "frozenset xs = set_update [] xs"

section \<open>Path combination algebra\<close>

text \<open>
  \<open>flatten_path_combination(expr, recursive)\<close>. The loop over \<open>expr.paths\<close> fills the
  local set \<open>paths\<close>; the function then assigns \<open>expr.paths\<close> and returns \<open>expr\<close>: the
  result is the argument with its \<open>paths\<close> replaced. The recursive call flattens the member
  in place, so the \<open>path.paths\<close> read after it are those of its result. An argument without
  a \<open>paths\<close> attribute raises AttributeError.
\<close>

fun flatten_path_combination :: "ir \<Rightarrow> bool \<Rightarrow> error + ir" where
  "flatten_path_combination (PathCombination c ps) recursive =
     (case fold_err
             (\<lambda>path paths.
                if isinstance_cls path c \<or> (recursive \<and> is_PathCombination path) then
                  (if recursive then
                     (case flatten_path_combination path True of
                        Inl e \<Rightarrow> Inl e
                      | Inr path' \<Rightarrow>
                          (case paths_attr path' of
                             Inl e \<Rightarrow> Inl e
                           | Inr ps' \<Rightarrow> Inr (set_update paths ps')))
                   else
                     (case paths_attr path of
                        Inl e \<Rightarrow> Inl e
                      | Inr ps' \<Rightarrow> Inr (set_update paths ps')))
                else Inr (set_add path paths))
             ps [] of
        Inl e \<Rightarrow> Inl e
      | Inr paths \<Rightarrow> Inr (PathCombination c (frozenset paths)))"
| "flatten_path_combination _ recursive = Inl AttributeError"

text \<open>
  What the specification says a flattened member contributes, for comparison with the
  function: in the non-recursive mode a member of the same class contributes its members
  and any other member itself; \<open>leaves\<close> are the members that remain when every nested
  combination, of either class, is dissolved.
\<close>

fun absorbed :: "cls \<Rightarrow> ir \<Rightarrow> ir set" where
  "absorbed c (PathCombination c' ps) =
     (if c' = c then set ps else {PathCombination c' ps})"
| "absorbed c p = {p}"

fun leaves :: "ir \<Rightarrow> ir set" where
  "leaves (PathCombination c ps) = \<Union> (set (map leaves ps))"
| "leaves p = {p}"

section \<open>Path extractor\<close>

text \<open>The configuration a \<open>PathExtractor\<close> is created with.\<close>

record PathExtractor =
  reverse :: bool
  resolve_arefs :: bool
  recurse_subqueries :: int
  all_fragments :: bool
  extract_subgraph_refs :: bool

text \<open>
  A sub-result handed to \<open>combine_field_results\<close> is a Python object: a node, or \<open>None\<close>.
  It is given here by its identity and its value. \<open>set(results)\<close> has one entry for each
  object, whatever the values are: two nodes with equal attributes are two entries.
  \<open>set_of_objects\<close> keeps the first occurrence of each identity.
\<close>

type_synonym node_object = "nat \<times> ir"

definition add_object :: "node_object \<Rightarrow> node_object list \<Rightarrow> node_object list" where
  "add_object r s = (if fst r \<in> fst ` set s then s else s @ [r])"

definition set_of_objects :: "node_object list \<Rightarrow> node_object list" where
  "set_of_objects results = foldl (\<lambda>s r. add_object r s) [] results"

text \<open>
  \<open>PathExtractor.combine_field_results(results, combination, flatten)\<close>. The extractor
  itself is not read. \<open>results\<close> is the iterable handed over; this function drops nothing
  from it (the callers add a sub-result only when it is true). The members of the
  combination it builds are the values of the objects in \<open>paths\<close>.
\<close>

definition combine_field_results :: "node_object list \<Rightarrow> cls \<Rightarrow> bool \<Rightarrow> error + ir" where
  "combine_field_results results combination flatten =
     (let paths = set_of_objects results in
      if length paths = 1 then Inr (snd (hd paths))
      else if length paths = 0 then Inr PyNone
      else
        (let result = PathCombination combination (map snd paths) in
         if flatten then flatten_path_combination result False else Inr result))"

text \<open>
  The loop \<open>while result.rlink: result = result.rlink.source; paths.append(result)\<close> of
  \<open>visit_EntitySet\<close>: it returns the last \<open>result\<close> and the list \<open>paths\<close>.
\<close>

lemma source_attr_size: "source_attr l = Inr s \<Longrightarrow> size s < size l"
  by (cases l) auto

lemma rlink_attr_size: "rlink_attr x = Inr l \<Longrightarrow> size l < size x"
  by (cases x) auto

lemma expr_attr_size: "expr_attr x = Inr y \<Longrightarrow> size y < size x"
  by (cases x) auto

function walk_rlinks :: "ir \<Rightarrow> ir list \<Rightarrow> error + (ir \<times> ir list)" where
  "walk_rlinks result paths =
     (case rlink_attr result of
        Inl e \<Rightarrow> Inl e
      | Inr rl \<Rightarrow>
          if rl \<noteq> PyNone then
            (case source_attr rl of
               Inl e \<Rightarrow> Inl e
             | Inr src \<Rightarrow> walk_rlinks src (paths @ [src]))
          else Inr (result, paths))"
  by pat_completeness auto
termination
proof (relation "measure (\<lambda>(result, paths). size result)")
  show "wf (measure (\<lambda>(result, paths). size result))" by simp
next
  fix result :: ir and paths :: "ir list" and rl src
  assume "rlink_attr result = Inr rl" and "source_attr rl = Inr src"
  then have "size src < size result"
    using source_attr_size rlink_attr_size by (meson less_trans)
  then show "((src, paths @ [src]), (result, paths)) \<in> measure (\<lambda>(result, paths). size result)"
    by simp
qed

declare walk_rlinks.simps [simp del]

text \<open>\<open>PathExtractor.visit_EntitySet(self, path)\<close>.\<close>

definition visit_EntitySet :: "PathExtractor \<Rightarrow> ir \<Rightarrow> error + ir" where
  "visit_EntitySet self path =
     (if reverse self then
        (case walk_rlinks path [path] of
           Inl e \<Rightarrow> Inl e
         | Inr (result, paths) \<Rightarrow>
             if length paths = 1 \<or> \<not> all_fragments self then Inr (last paths)
             else Inr (PathCombination Disjunction (frozenset paths)))
      else Inr path)"

text \<open>
  The chain of a well-formed entity set, for stating what \<open>visit_EntitySet\<close> walks: the
  entity sets reached from a node by \<open>rlink.source\<close>, nearest first. A chain is well
  formed when every \<open>rlink\<close> is \<open>None\<close> or an \<open>EntityLink\<close> whose \<open>source\<close> is again such
  an entity set.
\<close>

fun is_chain :: "ir \<Rightarrow> bool" where
  "is_chain (EntitySet c PyNone) = True"
| "is_chain (EntitySet c (EntityLink src t lp)) = is_chain src"
| "is_chain _ = False"

fun ancestors :: "ir \<Rightarrow> ir list" where
  "ancestors (EntitySet c (EntityLink src t lp)) = src # ancestors src"
| "ancestors _ = []"

declare expr_attr_size [termination_simp] source_attr_size [termination_simp]

section \<open>Path index and prefix extraction\<close>

text \<open>
  A key of a \<open>PathIndex\<close>, as \<open>expr.get_id()\<close> can return it: \<open>None\<close>, a \<open>LinearPath\<close>,
  a string, or any other object. \<open>key_truthy\<close> is the test \<open>if key:\<close>.
\<close>

datatype key = KNone | KPath LinearPath | KStr string | KOther string

fun key_truthy :: "key \<Rightarrow> bool" where
  "key_truthy KNone = False"
| "key_truthy (KPath p) = (p \<noteq> [])"
| "key_truthy (KStr s) = (s \<noteq> [])"
| "key_truthy (KOther s) = True"

text \<open>
  \<open>PathIndex\<close> is a dict from keys to sets of nodes. \<open>__setitem__\<close> raises TypeError for a
  key that is neither a \<open>LinearPath\<close> nor a string; the values stored here are sets already.
\<close>

type_synonym PathIndex = "key \<rightharpoonup> ir set"

definition PathIndex_setitem :: "PathIndex \<Rightarrow> key \<Rightarrow> ir set \<Rightarrow> error + PathIndex" where
  "PathIndex_setitem self k v =
     (case k of
        KPath p \<Rightarrow> Inr (self(k \<mapsto> v))
      | KStr s \<Rightarrow> Inr (self(k \<mapsto> v))
      | _ \<Rightarrow> Inl TypeError)"

text \<open>
  The block \<open>if key: if key not in prefixes: prefixes[key] = {expr} else: prefixes[key].add(expr)\<close>
  of \<open>extract_prefixes\<close>.
\<close>

definition record_prefix :: "key \<Rightarrow> ir \<Rightarrow> PathIndex \<Rightarrow> error + PathIndex" where
  "record_prefix k expr prefixes =
     (if key_truthy k then
        (case prefixes k of
           None \<Rightarrow> PathIndex_setitem prefixes k {expr}
         | Some s \<Rightarrow> Inr (prefixes(k \<mapsto> insert expr s)))
      else Inr prefixes)"

text \<open>The first statement of \<open>extract_prefixes\<close>: a fresh, empty index when none is given.\<close>

definition index_or_new :: "PathIndex option \<Rightarrow> PathIndex" where
  "index_or_new prefixes = (case prefixes of None \<Rightarrow> Map.empty | Some p \<Rightarrow> p)"

text \<open>
  \<open>extract_prefixes(expr, prefixes)\<close>. The index is updated in place by the Python code and
  returned; here it is passed on from call to call. \<open>get_id\<close> stands for the \<open>get_id()\<close>
  method of the node classes, which is not part of the analysed sources. The last equation
  is the \<open>assert False\<close> of the final \<open>else\<close>.
\<close>

fun extract_prefixes :: "(ir \<Rightarrow> key) \<Rightarrow> ir \<Rightarrow> PathIndex option \<Rightarrow> error + PathIndex" where
  "extract_prefixes get_id (PathCombination c paths) prefixes =
     fold_err (\<lambda>path idx. extract_prefixes get_id path (Some idx)) paths (index_or_new prefixes)"
| "extract_prefixes get_id (EntitySet concept rlink) prefixes =
     (case record_prefix (get_id (EntitySet concept rlink)) (EntitySet concept rlink)
             (index_or_new prefixes) of
        Inl e \<Rightarrow> Inl e
      | Inr idx \<Rightarrow>
          if rlink \<noteq> PyNone then
            (case source_attr rlink of
               Inl e \<Rightarrow> Inl e
             | Inr src \<Rightarrow> extract_prefixes get_id src (Some idx))
          else Inr idx)"
| "extract_prefixes get_id (AtomicRefSimple ref name) prefixes =
     (case record_prefix (get_id (AtomicRefSimple ref name)) (AtomicRefSimple ref name)
             (index_or_new prefixes) of
        Inl e \<Rightarrow> Inl e
      | Inr idx \<Rightarrow> extract_prefixes get_id ref (Some idx))"
| "extract_prefixes get_id (EntityLink source target link_proto) prefixes =
     extract_prefixes get_id (if target \<noteq> PyNone then target else source)
       (Some (index_or_new prefixes))"
| "extract_prefixes get_id (LinkPropRefSimple ref name) prefixes =
     extract_prefixes get_id ref (Some (index_or_new prefixes))"
| "extract_prefixes get_id (BinOp left op right) prefixes =
     (case extract_prefixes get_id left (Some (index_or_new prefixes)) of
        Inl e \<Rightarrow> Inl e
      | Inr idx \<Rightarrow> extract_prefixes get_id right (Some idx))"
| "extract_prefixes get_id (UnaryOp op expr) prefixes =
     extract_prefixes get_id expr (Some (index_or_new prefixes))"
| "extract_prefixes get_id (ExistPred expr) prefixes =
     extract_prefixes get_id expr (Some (index_or_new prefixes))"
| "extract_prefixes get_id (InlineFilter ref expr) prefixes =
     (case extract_prefixes get_id ref (Some (index_or_new prefixes)) of
        Inl e \<Rightarrow> Inl e
      | Inr idx \<Rightarrow> extract_prefixes get_id expr (Some idx))"
| "extract_prefixes get_id (InlinePropFilter ref expr) prefixes =
     (case extract_prefixes get_id ref (Some (index_or_new prefixes)) of
        Inl e \<Rightarrow> Inl e
      | Inr idx \<Rightarrow> extract_prefixes get_id expr (Some idx))"
| "extract_prefixes get_id (AtomicRefExpr expr) prefixes =
     extract_prefixes get_id expr (Some (index_or_new prefixes))"
| "extract_prefixes get_id (LinkPropRefExpr expr) prefixes =
     extract_prefixes get_id expr (Some (index_or_new prefixes))"
| "extract_prefixes get_id (FunctionCall name args agg_sort agg_filter partition_by) prefixes =
     (case fold_err (\<lambda>arg idx. extract_prefixes get_id arg (Some idx)) args
             (index_or_new prefixes) of
        Inl e \<Rightarrow> Inl e
      | Inr idx1 \<Rightarrow>
          (case fold_err
                  (\<lambda>sortexpr idx.
                     case expr_attr sortexpr of
                       Inl e \<Rightarrow> Inl e
                     | Inr x \<Rightarrow> extract_prefixes get_id x (Some idx))
                  agg_sort idx1 of
             Inl e \<Rightarrow> Inl e
           | Inr idx2 \<Rightarrow>
               (case (if agg_filter \<noteq> PyNone
                      then extract_prefixes get_id agg_filter (Some idx2)
                      else Inr idx2) of
                  Inl e \<Rightarrow> Inl e
                | Inr idx3 \<Rightarrow>
                    fold_err (\<lambda>partition_expr idx. extract_prefixes get_id partition_expr (Some idx))
                      partition_by idx3)))"
| "extract_prefixes get_id (TypeCast expr maintype subtypes) prefixes =
     extract_prefixes get_id expr (Some (index_or_new prefixes))"
| "extract_prefixes get_id (NoneTest expr) prefixes =
     extract_prefixes get_id expr (Some (index_or_new prefixes))"
| "extract_prefixes get_id (Sequence elements) prefixes =
     fold_err (\<lambda>path idx. extract_prefixes get_id path (Some idx)) elements
       (index_or_new prefixes)"
| "extract_prefixes get_id (Record concept elements) prefixes =
     fold_err (\<lambda>path idx. extract_prefixes get_id path (Some idx)) elements
       (index_or_new prefixes)"
| "extract_prefixes get_id (Constant expr type index) prefixes = Inr (index_or_new prefixes)"
| "extract_prefixes get_id (GraphExpr generator selector grouper sorter) prefixes =
     Inr (index_or_new prefixes)"
| "extract_prefixes get_id (SubgraphRef ref) prefixes =
     extract_prefixes get_id ref (Some (index_or_new prefixes))"
| "extract_prefixes get_id _ prefixes = Inl AssertionError"

section \<open>Type inference\<close>

text \<open>
  The final check of \<open>infer_type\<close>: a result that is not \<open>None\<close> must be a prototype, or
  a tuple or list whose element at index 1 is one. Reading \<open>result[1]\<close> of a sequence
  with fewer than two elements raises IndexError before the assertion can fail.
\<close>

definition assert_prototype :: "pyval \<Rightarrow> error + pyval" where
  "assert_prototype result =
     (if result \<noteq> PNone then
        (if is_prototype result then Inr result
         else
           (case result of
              Seq xs \<Rightarrow>
                (if 1 < length xs then
                   (if is_prototype (xs ! 1) then Inr result else Inl AssertionError)
                 else Inl IndexError)
            | _ \<Rightarrow> Inl AssertionError))
      else Inr result)"

text \<open>
  \<open>infer_type(ir, schema)\<close>. \<open>infer_type_result\<close> is the \<open>if\<close>/\<open>elif\<close> chain that computes
  \<open>result\<close>, \<open>infer_type\<close> the whole function, ending in the check above; every recursive
  call of the Python function is a call of \<open>infer_type\<close>. A false pointer raises
  LookupError for an atomic reference and fails the \<open>assert prop\<close> for a link property.
\<close>

fun infer_type :: "ir \<Rightarrow> schema \<Rightarrow> error + pyval"
and infer_type_result :: "ir \<Rightarrow> schema \<Rightarrow> error + pyval" where
  "infer_type ir schema =
     (case infer_type_result ir schema of
        Inl e \<Rightarrow> Inl e
      | Inr result \<Rightarrow> assert_prototype result)"
| "infer_type_result MetaRef schema = get schema ''std::str''"
| "infer_type_result (AtomicRefSimple ref name) schema =
     (case (case ref of
              PathCombination c paths \<Rightarrow>
                (case map_err concept_attr paths of
                   Inl e \<Rightarrow> Inl e
                 | Inr targets \<Rightarrow> get_prototype_nearest_common_ancestor schema targets)
            | _ \<Rightarrow> concept_attr ref) of
        Inl e \<Rightarrow> Inl e
      | Inr concept \<Rightarrow>
          (case resolve_pointer schema concept name of
             Inl e \<Rightarrow> Inl e
           | Inr ptr \<Rightarrow> if \<not> truthy ptr then Inl LookupError else ptr_target schema ptr))"
| "infer_type_result (LinkPropRefSimple ref name) schema =
     (case (case ref of
              PathCombination c paths \<Rightarrow>
                (case map_err link_proto_attr paths of
                   Inl e \<Rightarrow> Inl e
                 | Inr targets \<Rightarrow> get_prototype_nearest_common_ancestor schema targets)
            | _ \<Rightarrow> link_proto_attr ref) of
        Inl e \<Rightarrow> Inl e
      | Inr link \<Rightarrow>
          (case getptr schema link name of
             Inl e \<Rightarrow> Inl e
           | Inr prop \<Rightarrow> if \<not> truthy prop then Inl AssertionError else ptr_target schema prop))"
| "infer_type_result (AtomicRefExpr expr) schema = infer_type expr schema"
| "infer_type_result (LinkPropRefExpr expr) schema = infer_type expr schema"
| "infer_type_result (Record concept elements) schema = Inr concept"
| "infer_type_result (FunctionCall name args agg_sort agg_filter partition_by) schema =
     (case get schema name of Inl e \<Rightarrow> Inl e | Inr func_obj \<Rightarrow> returntype schema func_obj)"
| "infer_type_result (Constant expr type index) schema =
     (if expr \<noteq> PyNone then infer_type expr schema else Inr type)"
| "infer_type_result (BinOp left op right) schema =
     (if isinstance_op op ComparisonOperator \<or> isinstance_op op TypeCheckOperator
           \<or> isinstance_op op MembershipOperator
      then get schema ''std::bool''
      else
        (case infer_type left schema of
           Inl e \<Rightarrow> Inl e
         | Inr left_type \<Rightarrow>
             (case infer_type right schema of
                Inl e \<Rightarrow> Inl e
              | Inr right_type \<Rightarrow>
                  (case get_result schema (Fwd op) [left_type, right_type] of
                     Inl e \<Rightarrow> Inl e
                   | Inr result \<Rightarrow>
                       if result = PNone
                       then get_result schema (Reversed op) [right_type, left_type]
                       else Inr result))))"
| "infer_type_result (UnaryOp op expr) schema =
     (case infer_type expr schema of
        Inl e \<Rightarrow> Inl e
      | Inr operand_type \<Rightarrow> get_result schema (Fwd op) [operand_type])"
| "infer_type_result (EntitySet concept rlink) schema = Inr concept"
| "infer_type_result (PathCombination c paths) schema =
     (case paths of [] \<Rightarrow> Inr PNone | p # ps \<Rightarrow> infer_type p schema)"
| "infer_type_result (TypeCast expr maintype subtypes) schema =
     (if subtypes \<noteq> [] then
        (case map_err (get schema) subtypes of
           Inl e \<Rightarrow> Inl e
         | Inr ts \<Rightarrow> from_subtypes schema maintype ts)
      else get schema maintype)"
| "infer_type_result (GraphExpr generator selector grouper sorter) schema =
     (case selector of
        [s] \<Rightarrow> (case expr_attr s of Inl e \<Rightarrow> Inl e | Inr x \<Rightarrow> infer_type x schema)
      | _ \<Rightarrow> Inr PNone)"
| "infer_type_result (SubgraphRef ref) schema = infer_type ref schema"
| "infer_type_result (ExistPred expr) schema = get schema ''std::bool''"
| "infer_type_result _ schema = Inr PNone"

text \<open>
  The type-rule table with the direction of the rules of one operator exchanged: what is
  registered under \<open>(op, 'reversed')\<close> is found under \<open>op\<close>, and the other way round.
\<close>

definition swap_direction :: "operator \<Rightarrow> schema \<Rightarrow> schema" where
  "swap_direction op schema =
     schema\<lparr>get_result :=
       (\<lambda>k ts. get_result schema
          (case k of
             Fwd o' \<Rightarrow> if o' = op then Reversed o' else Fwd o'
           | Reversed o' \<Rightarrow> if o' = op then Fwd o' else Reversed o') ts)\<rparr>"

text \<open>
  Whether an operator occurs in a tree: as the operator of a \<open>BinOp\<close> or \<open>UnaryOp\<close> node
  anywhere below the node or at the node itself.
\<close>

fun has_op :: "operator \<Rightarrow> ir \<Rightarrow> bool" where
  "has_op op PyNone = False"
| "has_op op MetaRef = False"
| "has_op op (AtomicRefSimple ref name) = has_op op ref"
| "has_op op (LinkPropRefSimple ref name) = has_op op ref"
| "has_op op (AtomicRefExpr expr) = has_op op expr"
| "has_op op (LinkPropRefExpr expr) = has_op op expr"
| "has_op op (Record concept elements) = (\<exists>x\<in>set elements. has_op op x)"
| "has_op op (Sequence elements) = (\<exists>x\<in>set elements. has_op op x)"
| "has_op op (FunctionCall name args agg_sort agg_filter partition_by) =
     ((\<exists>x\<in>set args. has_op op x) \<or> (\<exists>x\<in>set agg_sort. has_op op x) \<or> has_op op agg_filter
      \<or> (\<exists>x\<in>set partition_by. has_op op x))"
| "has_op op (Constant expr type index) = has_op op expr"
| "has_op op (BinOp left op' right) = (op' = op \<or> has_op op left \<or> has_op op right)"
| "has_op op (UnaryOp op' expr) = (op' = op \<or> has_op op expr)"
| "has_op op (EntitySet concept rlink) = has_op op rlink"
| "has_op op (EntityLink source tgt link_proto) = (has_op op source \<or> has_op op tgt)"
| "has_op op (PathCombination c paths) = (\<exists>x\<in>set paths. has_op op x)"
| "has_op op (TypeCast expr maintype subtypes) = has_op op expr"
| "has_op op (GraphExpr generator selector grouper sorter) =
     (has_op op generator \<or> (\<exists>x\<in>set selector. has_op op x) \<or> (\<exists>x\<in>set grouper. has_op op x)
      \<or> (\<exists>x\<in>set sorter. has_op op x))"
| "has_op op (SelectorExpr expr) = has_op op expr"
| "has_op op (SortExpr expr) = has_op op expr"
| "has_op op (SubgraphRef ref) = has_op op ref"
| "has_op op (ExistPred expr) = has_op op expr"
| "has_op op (NoneTest expr) = has_op op expr"
| "has_op op (InlineFilter ref expr) = (has_op op ref \<or> has_op op expr)"
| "has_op op (InlinePropFilter ref expr) = (has_op op ref \<or> has_op op expr)"

section \<open>Parameter types from their use\<close>

text \<open>The filter \<open>flt\<close> that \<open>infer_arg_types\<close> hands to \<open>ast.find_children\<close>.\<close>

fun flt :: "ir \<Rightarrow> bool" where
  "flt (BinOp left op right) = (is_Constant left \<or> is_Constant right)"
| "flt _ = False"

text \<open>
  The first half of the loop body of \<open>infer_arg_types\<close>, for one node \<open>binop\<close> of \<open>ops\<close>:
  the parameter index \<open>arg.index\<close> and the type \<open>typ\<close> inferred for it, \<open>None\<close> where the
  body runs \<open>continue\<close>. Reading \<open>.right\<close>, \<open>.left\<close> or \<open>.index\<close> of a node without that
  attribute raises AttributeError.
\<close>

fun infer_arg_type :: "schema \<Rightarrow> ir \<Rightarrow> error + (nat \<times> pyval) option" where
  "infer_arg_type schema (BinOp left op right) =
     (let (expr, arg, reversed) =
            (if is_Constant right then (left, right, False) else (right, left, True))
      in case arg of
           Constant e t index \<Rightarrow>
             (case index of
                None \<Rightarrow> Inr None
              | Some i \<Rightarrow>
                  (case (if isinstance_op op EdgeDBMatchOperator then get schema ''std::str''
                         else if isinstance_op op ComparisonOperator
                                 \<or> isinstance_op op ArithmeticOperator
                           then infer_type expr schema
                         else if isinstance_op op MembershipOperator \<and> \<not> reversed
                           then (case infer_type expr schema of
                                   Inl e \<Rightarrow> Inl e
                                 | Inr elem_type \<Rightarrow> Set_of schema elem_type)
                         else if isinstance_op op BooleanOperator then get schema ''std::bool''
                         else Inl ValueError_unsupported_operator) of
                     Inl e \<Rightarrow> Inl e
                   | Inr typ \<Rightarrow>
                       if typ = PNone then Inl ValueError_cannot_infer
                       else Inr (Some (i, typ))))
         | _ \<Rightarrow> Inl AttributeError)"
| "infer_arg_type schema _ = Inl AttributeError"

text \<open>
  The second half: \<open>arg_types[arg.index]\<close> is set when the index is new; an existing
  entry that differs from \<open>typ\<close> raises the ValueError "ambiguous resolution".
\<close>

definition store_arg_type ::
  "(nat \<rightharpoonup> pyval) \<Rightarrow> nat \<Rightarrow> pyval \<Rightarrow> error + (nat \<rightharpoonup> pyval)" where
  "store_arg_type arg_types i typ =
     (case arg_types i of
        None \<Rightarrow> Inr (arg_types(i \<mapsto> typ))
      | Some existing \<Rightarrow>
          if existing \<noteq> typ then Inl ValueError_ambiguous_resolution else Inr arg_types)"

definition arg_types_step ::
  "schema \<Rightarrow> ir \<Rightarrow> (nat \<rightharpoonup> pyval) \<Rightarrow> error + (nat \<rightharpoonup> pyval)" where
  "arg_types_step schema binop arg_types =
     (case infer_arg_type schema binop of
        Inl e \<Rightarrow> Inl e
      | Inr None \<Rightarrow> Inr arg_types
      | Inr (Some (i, typ)) \<Rightarrow> store_arg_type arg_types i typ)"

text \<open>
  \<open>infer_arg_types(ir, schema)\<close>. \<open>find_children\<close> stands for \<open>ast.find_children\<close>, which
  is not part of the analysed sources: it returns the list \<open>ops\<close> the loop runs over.
\<close>

definition infer_arg_types ::
  "(ir \<Rightarrow> (ir \<Rightarrow> bool) \<Rightarrow> ir list) \<Rightarrow> ir \<Rightarrow> schema \<Rightarrow> error + (nat \<rightharpoonup> pyval)" where
  "infer_arg_types find_children ir schema =
     fold_err (arg_types_step schema) (find_children ir flt) Map.empty"

section \<open>Copying a path: nodes and their sets in a store\<close>

text \<open>
  \<open>copy_path\<close> builds new node objects whose attributes refer to other objects, and whether
  a copy shares a set with its source is a question about references. Objects therefore
  live in a store, a list indexed by reference; an attribute holds \<open>None\<close>, a reference, or
  an immutable value. A new object is put at the end of the store.
\<close>

type_synonym ref = nat

datatype val = VNone | VRef ref | VAtom string

text \<open>
  Modelled from the spec: the \<open>irast\<close> classes \<open>EntitySet\<close>, \<open>EntityLink\<close> and \<open>BaseRef\<close>,
  whose declarations are not part of the analysed sources, with the attributes that
  \<open>copy_path\<close> reads or writes. Their user and rewrite-flag sets are mutable collections
  shared by reference unless explicitly copied. \<open>br_class\<close> is the class of a reference
  node.
\<close>

record entity_set =
  es_id :: val
  es_context :: val
  es_pathvar :: val
  es_concept :: val
  es_users :: val
  es_joins :: val
  es_rewrite_flags :: val
  es_anchor :: val
  es_show_as_anchor :: val
  es_backend_rel_suffix :: val
  es_rlink :: val
  es_origin :: val
  es_disjunction :: val

record entity_link =
  el_context :: val
  el_target :: val
  el_source :: val
  el_link_proto :: val
  el_direction :: val
  el_propfilter :: val
  el_users :: val
  el_pathvar :: val
  el_anchor :: val
  el_show_as_anchor :: val
  el_rewrite_flags :: val
  el_pathspec_trigger :: val

datatype ref_class =
  AtomicRefSimple_class | LinkPropRefSimple_class | AtomicRefExpr_class | LinkPropRefExpr_class

record base_ref =
  br_class :: ref_class
  br_id :: val
  br_context :: val
  br_ref :: val
  br_ptr_proto :: val
  br_rewrite_flags :: val
  br_pathvar :: val
  br_anchor :: val
  br_show_as_anchor :: val
  br_expr :: val
  br_inline :: val
  br_name :: val
  br_rlink :: val

datatype obj =
    OSet "val set"
  | OEntitySet entity_set
  | OEntityLink entity_link
  | OBaseRef base_ref
  | ODisjunction "val list"

type_synonym store = "obj list"

definition deref :: "store \<Rightarrow> val \<Rightarrow> obj option" where
  "deref h v = (case v of VRef r \<Rightarrow> if r < length h then Some (h ! r) else None | _ \<Rightarrow> None)"

definition alloc :: "store \<Rightarrow> obj \<Rightarrow> store \<times> val" where
  "alloc h x = (h @ [x], VRef (length h))"

definition update_obj :: "store \<Rightarrow> val \<Rightarrow> (obj \<Rightarrow> obj) \<Rightarrow> store" where
  "update_obj h v f =
     (case v of VRef r \<Rightarrow> if r < length h then h[r := f (h ! r)] else h | _ \<Rightarrow> h)"

text \<open>
  \<open>s.copy()\<close> of a set makes a new set object with the same elements; \<open>s.add(x)\<close> changes
  the set object in place. On a value that is not a set both raise AttributeError.
\<close>

definition set_copy :: "store \<Rightarrow> val \<Rightarrow> error + (store \<times> val)" where
  "set_copy h v =
     (case deref h v of Some (OSet s) \<Rightarrow> Inr (alloc h (OSet s)) | _ \<Rightarrow> Inl AttributeError)"

definition set_add_in_place :: "store \<Rightarrow> val \<Rightarrow> val \<Rightarrow> error + store" where
  "set_add_in_place h v x =
     (case deref h v of
        Some (OSet s) \<Rightarrow> Inr (update_obj h v (\<lambda>_. OSet (insert x s)))
      | _ \<Rightarrow> Inl AttributeError)"

text \<open>The elements of the set an attribute refers to.\<close>

definition elements_of :: "store \<Rightarrow> val \<Rightarrow> val set option" where
  "elements_of h v = (case deref h v of Some (OSet s) \<Rightarrow> Some s | _ \<Rightarrow> None)"

fun is_BaseRefExpr :: "ref_class \<Rightarrow> bool" where
  "is_BaseRefExpr AtomicRefExpr_class = True"
| "is_BaseRefExpr LinkPropRefExpr_class = True"
| "is_BaseRefExpr _ = False"

text \<open>
  Attribute assignments on a node object: \<open>x.rlink = l\<close>, \<open>x.source = p\<close> and
  \<open>x.disjunction = d\<close>.
\<close>

fun assign_rlink :: "val \<Rightarrow> obj \<Rightarrow> obj" where
  "assign_rlink l (OEntitySet e) = OEntitySet (e\<lparr>es_rlink := l\<rparr>)"
| "assign_rlink l (OBaseRef b) = OBaseRef (b\<lparr>br_rlink := l\<rparr>)"
| "assign_rlink l x = x"

fun assign_source :: "val \<Rightarrow> obj \<Rightarrow> obj" where
  "assign_source p (OEntityLink l) = OEntityLink (l\<lparr>el_source := p\<rparr>)"
| "assign_source p x = x"

fun assign_disjunction :: "val \<Rightarrow> obj \<Rightarrow> obj" where
  "assign_disjunction d (OEntitySet e) = OEntitySet (e\<lparr>es_disjunction := d\<rparr>)"
| "assign_disjunction d x = x"

text \<open>
  The constructor call \<open>irast.EntitySet(id=p.id, ..., users=p.users, joins=p.joins,
  rewrite_flags=p.rewrite_flags.copy(), ...)\<close>, written twice in \<open>copy_path\<close> (for the node
  and for each parent), with the assignment of \<open>origin\<close> that follows it under
  \<open>connect_to_origin\<close>. A constructor stores the objects it is given: sets are shared by
  reference unless copied. \<open>users\<close> and \<open>joins\<close> are handed over as they are, only
  \<open>rewrite_flags\<close> is copied. Attributes the call does not name are \<open>None\<close>.
\<close>

definition new_EntitySet :: "store \<Rightarrow> val \<Rightarrow> entity_set \<Rightarrow> bool \<Rightarrow> error + (store \<times> val)" where
  "new_EntitySet h path p connect_to_origin =
     (case set_copy h (es_rewrite_flags p) of
        Inl e \<Rightarrow> Inl e
      | Inr (h1, flags) \<Rightarrow>
          Inr (alloc h1 (OEntitySet
            \<lparr>es_id = es_id p, es_context = es_context p, es_pathvar = es_pathvar p,
             es_concept = es_concept p, es_users = es_users p, es_joins = es_joins p,
             es_rewrite_flags = flags, es_anchor = es_anchor p,
             es_show_as_anchor = es_show_as_anchor p,
             es_backend_rel_suffix = es_backend_rel_suffix p,
             es_rlink = VNone,
             es_origin = (if connect_to_origin
                          then (if es_origin p \<noteq> VNone then es_origin p else path)
                          else VNone),
             es_disjunction = VNone\<rparr>)))"

text \<open>
  The first part of \<open>copy_path\<close>, up to \<open>current = result\<close>: the copy of the node itself,
  and the \<open>rlink\<close> the loop starts from. For a node that is neither an \<open>EntitySet\<close> nor a
  \<open>BaseRef\<close> the result is \<open>None\<close> and the loop starts from the node.
\<close>

definition copy_node :: "store \<Rightarrow> val \<Rightarrow> bool \<Rightarrow> error + (store \<times> val \<times> val)" where
  "copy_node h path connect_to_origin =
     (case deref h path of
        Some (OEntitySet p) \<Rightarrow>
          (case new_EntitySet h path p connect_to_origin of
             Inl e \<Rightarrow> Inl e
           | Inr (h1, result) \<Rightarrow> Inr (h1, result, es_rlink p))
      | Some (OBaseRef p) \<Rightarrow>
          (case set_copy h (br_rewrite_flags p) of
             Inl e \<Rightarrow> Inl e
           | Inr (h1, flags) \<Rightarrow>
               (let (h2, result) = alloc h1 (OBaseRef
                  \<lparr>br_class = br_class p, br_id = br_id p, br_context = br_context p,
                   br_ref = br_ref p, br_ptr_proto = br_ptr_proto p,
                   br_rewrite_flags = flags, br_pathvar = br_pathvar p,
                   br_anchor = br_anchor p, br_show_as_anchor = br_show_as_anchor p,
                   br_expr = (if is_BaseRefExpr (br_class p) then br_expr p else VNone),
                   br_inline = (if is_BaseRefExpr (br_class p) then br_inline p else VNone),
                   br_name = (if is_BaseRefExpr (br_class p) then VNone else br_name p),
                   br_rlink = VNone\<rparr>)
                in Inr (h2, result, br_rlink p)))
      | _ \<Rightarrow> Inr (h, VNone, path))"

text \<open>
  The loop \<open>while rlink:\<close> of \<open>copy_path\<close>. The first argument bounds the number of
  iterations: the loop follows \<open>rlink\<close> and \<open>source\<close> references through the store and
  does not end on a cyclic chain; \<open>None\<close> is the result when the bound is used up.
\<close>

fun copy_links ::
  "nat \<Rightarrow> store \<Rightarrow> val \<Rightarrow> val \<Rightarrow> val \<Rightarrow> bool \<Rightarrow> (error + (store \<times> val)) option" where
  "copy_links n h result current rlink connect_to_origin =
     (if rlink \<noteq> VNone then
        (case n of
           0 \<Rightarrow> None
         | Suc m \<Rightarrow>
        (case deref h rlink of
           Some (OEntityLink l) \<Rightarrow>
             (case set_copy h (el_users l) of
                Inl e \<Rightarrow> Some (Inl e)
              | Inr (h1, users) \<Rightarrow>
             (case set_copy h1 (el_rewrite_flags l) of
                Inl e \<Rightarrow> Some (Inl e)
              | Inr (h2, flags) \<Rightarrow>
                  (let (h3, link) = alloc h2 (OEntityLink
                         \<lparr>el_context = el_context l, el_target = current, el_source = VNone,
                          el_link_proto = el_link_proto l, el_direction = el_direction l,
                          el_propfilter = el_propfilter l, el_users = users,
                          el_pathvar = el_pathvar l, el_anchor = el_anchor l,
                          el_show_as_anchor = el_show_as_anchor l, el_rewrite_flags = flags,
                          el_pathspec_trigger = el_pathspec_trigger l\<rparr>);
                       result' = (if result = VNone then link else result);
                       parent_path = el_source l
                   in if parent_path \<noteq> VNone then
                        (case deref h3 parent_path of
                           Some (OEntitySet pp) \<Rightarrow>
                             (case new_EntitySet h3 parent_path pp connect_to_origin of
                                Inl e \<Rightarrow> Some (Inl e)
                              | Inr (h4, parent) \<Rightarrow>
                                  (let (h5, d) = alloc h4 (ODisjunction [link]);
                                       h6 = update_obj h5 parent (assign_disjunction d);
                                       h7 = update_obj h6 link (assign_source parent);
                                       h8 = (if current \<noteq> VNone
                                             then update_obj h7 current (assign_rlink link)
                                             else h7)
                                   in copy_links m h8 result' parent (es_rlink pp)
                                        connect_to_origin))
                         | _ \<Rightarrow> Some (Inl AttributeError))
                      else copy_links m h3 result' current VNone connect_to_origin)))
         | _ \<Rightarrow> Some (Inl AttributeError)))
      else Some (Inr (h, result)))"

declare copy_links.simps [simp del]

text \<open>\<open>copy_path(path, connect_to_origin)\<close>, with the bound on the loop.\<close>

definition copy_path ::
  "nat \<Rightarrow> store \<Rightarrow> val \<Rightarrow> bool \<Rightarrow> (error + (store \<times> val)) option" where
  "copy_path n h path connect_to_origin =
     (case copy_node h path connect_to_origin of
        Inl e \<Rightarrow> Some (Inl e)
      | Inr (h1, result, rlink) \<Rightarrow> copy_links n h1 result result rlink connect_to_origin)"


section \<open>A small schema and store for the examples\<close>

text \<open>
  A catalogue in which every name is a type, the concept \<open>Person\<close> has the pointers \<open>age\<close>
  (an integer) and \<open>name\<close> (a string), and the only type rule is registered under
  \<open>('+', 'reversed')\<close>, for an integer and a string.
\<close>

definition plus_op :: operator where
  "plus_op = Operator ''+'' [ArithmeticOperator]"

definition example_schema :: schema where
  "example_schema =
     \<lparr>get = (\<lambda>name. Inr (Proto name)),
      resolve_pointer =
        (\<lambda>concept name. Inr (if name = ''age'' \<or> name = ''name'' then Proto name else PNone)),
      getptr = (\<lambda>link name. Inr PNone),
      ptr_target =
        (\<lambda>ptr. Inr (if ptr = Proto ''age'' then Proto ''std::int'' else Proto ''std::str'')),
      returntype = (\<lambda>func_obj. Inr (Proto ''std::str'')),
      get_prototype_nearest_common_ancestor =
        (\<lambda>targets. case targets of [] \<Rightarrow> Inl SchemaError | t # _ \<Rightarrow> Inr t),
      get_result =
        (\<lambda>k ts. Inr (if k = Reversed plus_op \<and> ts = [Proto ''std::int'', Proto ''std::str'']
                       then Proto ''std::str'' else PNone)),
      from_subtypes = (\<lambda>maintype ts. Inr (Proto maintype)),
      Set_of = (\<lambda>t. Inr (Seq [NonProto ''Set'', t]))\<rparr>"

text \<open>
  \<open>ast.find_children\<close> on a \<open>Sequence\<close> node, as far as the examples need it: the elements
  that pass the filter.
\<close>

definition example_find_children :: "ir \<Rightarrow> (ir \<Rightarrow> bool) \<Rightarrow> ir list" where
  "example_find_children n f = (case n of Sequence es \<Rightarrow> filter f es | _ \<Rightarrow> [])"

text \<open>The comparisons \<open>Person.age > $0\<close>, \<open>Person.name = $0\<close> and \<open>Person.age < $0\<close>.\<close>

definition age_gt_param :: ir where
  "age_gt_param =
     BinOp (AtomicRefSimple (EntitySet (Proto ''Person'') PyNone) ''age'')
       (Operator ''>'' [ComparisonOperator]) (Constant PyNone PNone (Some 0))"

definition name_eq_param :: ir where
  "name_eq_param =
     BinOp (AtomicRefSimple (EntitySet (Proto ''Person'') PyNone) ''name'')
       (Operator ''='' [ComparisonOperator]) (Constant PyNone PNone (Some 0))"

definition age_lt_param :: ir where
  "age_lt_param =
     BinOp (AtomicRefSimple (EntitySet (Proto ''Person'') PyNone) ''age'')
       (Operator ''<'' [ComparisonOperator]) (Constant PyNone PNone (Some 0))"

text \<open>
  The type check \<open>Person.age IS $1\<close>, whose operator \<open>infer_arg_types\<close> does not
  support, and the sum \<open>'text' + 1\<close> of a string and an integer constant.
\<close>

definition is_param :: ir where
  "is_param =
     BinOp (AtomicRefSimple (EntitySet (Proto ''Person'') PyNone) ''age'')
       (Operator ''IS'' [TypeCheckOperator]) (Constant PyNone PNone (Some 1))"

definition nested_plus :: ir where
  "nested_plus =
     BinOp (Constant PyNone (Proto ''std::str'') None) plus_op
       (Constant PyNone (Proto ''std::int'') None)"

text \<open>
  A store with one entity set \<open>Person\<close> at reference 2, without \<open>rlink\<close>; its \<open>users\<close> is
  the set object at reference 0, its \<open>rewrite_flags\<close> the set object at reference 1.
\<close>

definition example_entity_set :: entity_set where
  "example_entity_set =
     \<lparr>es_id = VAtom ''Person'', es_context = VNone, es_pathvar = VNone,
      es_concept = VAtom ''Person'', es_users = VRef 0, es_joins = VNone,
      es_rewrite_flags = VRef 1, es_anchor = VNone, es_show_as_anchor = VNone,
      es_backend_rel_suffix = VNone, es_rlink = VNone, es_origin = VNone,
      es_disjunction = VNone\<rparr>"

definition example_store :: store where
  "example_store =
     [OSet {VAtom ''user''}, OSet {VAtom ''flag''}, OEntitySet example_entity_set]"

text \<open>
  The store after \<open>copy_path\<close> has copied that entity set: a new set object for the
  \<open>rewrite_flags\<close> at reference 3 and the new entity set at reference 4.
\<close>

definition copied_entity_set :: entity_set where
  "copied_entity_set = example_entity_set\<lparr>es_rewrite_flags := VRef 3\<rparr>"

definition copied_store :: store where
  "copied_store = example_store @ [OSet {VAtom ''flag''}, OEntitySet copied_entity_set]"

section \<open>Facts about sets kept as lists and about flattening\<close>

lemma set_set_add: "set (set_add x s) = insert x (set s)"
  by (auto simp: set_add_def)

lemma distinct_set_add: "distinct s \<Longrightarrow> distinct (set_add x s)"
  by (simp add: set_add_def)

lemma set_set_update: "set (set_update s xs) = set s \<union> set xs"
  unfolding set_update_def by (induction xs arbitrary: s) (auto simp: set_set_add)

lemma distinct_set_update: "distinct s \<Longrightarrow> distinct (set_update s xs)"
  unfolding set_update_def by (induction xs arbitrary: s) (auto simp: distinct_set_add)

lemma set_frozenset: "set (frozenset xs) = set xs"
  by (simp add: frozenset_def set_set_update)

lemma distinct_frozenset: "distinct (frozenset xs)"
  by (simp add: frozenset_def distinct_set_update)

lemma set_update_distinct_append:
  "distinct (s @ xs) \<Longrightarrow> set_update s xs = s @ xs"
  unfolding set_update_def
  by (induction xs arbitrary: s) (auto simp: set_add_def)

lemma frozenset_distinct: "distinct xs \<Longrightarrow> frozenset xs = xs"
  using set_update_distinct_append [of "[]" xs] by (simp add: frozenset_def)

lemma fold_err_union:
  assumes "\<And>x s. x \<in> set xs \<Longrightarrow> \<exists>s'. f x s = Inr s' \<and> set s' = set s \<union> g x"
  shows "\<exists>s'. fold_err f xs s = Inr s' \<and> set s' = set s \<union> (\<Union>x\<in>set xs. g x)"
  using assms
proof (induction xs arbitrary: s)
  case Nil
  then show ?case by simp
next
  case (Cons x xs)
  from Cons.prems [of x s] obtain s1 where s1: "f x s = Inr s1" "set s1 = set s \<union> g x"
    by auto
  from Cons.IH [of s1] Cons.prems obtain s2
    where s2: "fold_err f xs s1 = Inr s2" "set s2 = set s1 \<union> (\<Union>x\<in>set xs. g x)"
    by (meson list.set_intros(2))
  from s1 s2 show ?case by auto
qed

lemma absorbed_same: "isinstance_cls p c \<Longrightarrow> \<exists>ps. paths_attr p = Inr ps \<and> absorbed c p = set ps"
  by (cases p) auto

lemma absorbed_other: "\<not> isinstance_cls p c \<Longrightarrow> absorbed c p = {p}"
  by (cases p) auto

lemma flatten_nonrecursive:
  "\<exists>ps'. flatten_path_combination (PathCombination c ps) False = Inr (PathCombination c ps')
         \<and> set ps' = (\<Union>p\<in>set ps. absorbed c p) \<and> distinct ps'"
proof -
  let ?f = "\<lambda>path paths.
      if isinstance_cls path c \<or> (False \<and> is_PathCombination path) then
        (if False then
           (case flatten_path_combination path True of
              Inl e \<Rightarrow> Inl e
            | Inr path' \<Rightarrow>
                (case paths_attr path' of
                   Inl e \<Rightarrow> Inl e
                 | Inr ps' \<Rightarrow> Inr (set_update paths ps')))
         else
           (case paths_attr path of
              Inl e \<Rightarrow> Inl e
            | Inr ps' \<Rightarrow> Inr (set_update paths ps')))
      else Inr (set_add path paths)"
  have step: "\<exists>s'. ?f x s = Inr s' \<and> set s' = set s \<union> absorbed c x" for x s
  proof (cases "isinstance_cls x c")
    case True
    then show ?thesis using absorbed_same [OF True] by (auto simp: set_set_update)
  next
    case False
    then show ?thesis by (simp add: absorbed_other set_set_add)
  qed
  from fold_err_union [of ps ?f "absorbed c" "[]", OF step]
  obtain s' where "fold_err ?f ps [] = Inr s'" "set s' = (\<Union>p\<in>set ps. absorbed c p)"
    by auto
  then show ?thesis by (simp add: set_frozenset distinct_frozenset)
qed

lemma leaves_plain: "\<not> is_PathCombination p \<Longrightarrow> leaves p = {p}"
  by (cases p) auto

lemma flatten_recursive:
  "\<exists>ps'. flatten_path_combination (PathCombination c ps) True = Inr (PathCombination c ps')
         \<and> set ps' = (\<Union>p\<in>set ps. leaves p) \<and> distinct ps'"
proof (induction "PathCombination c ps" arbitrary: c ps rule: measure_induct_rule [of size])
  case less
  let ?f = "\<lambda>path paths.
      if isinstance_cls path c \<or> (True \<and> is_PathCombination path) then
        (if True then
           (case flatten_path_combination path True of
              Inl e \<Rightarrow> Inl e
            | Inr path' \<Rightarrow>
                (case paths_attr path' of
                   Inl e \<Rightarrow> Inl e
                 | Inr ps' \<Rightarrow> Inr (set_update paths ps')))
         else
           (case paths_attr path of
              Inl e \<Rightarrow> Inl e
            | Inr ps' \<Rightarrow> Inr (set_update paths ps')))
      else Inr (set_add path paths)"
  have step: "\<exists>s'. ?f x s = Inr s' \<and> set s' = set s \<union> leaves x" if x: "x \<in> set ps" for x s
  proof (cases "is_PathCombination x")
    case True
    then obtain c' qs where xeq: "x = PathCombination c' qs" by (cases x) auto
    have "size x < size (PathCombination c ps)"
      using x by (simp add: size_list_estimation' less_Suc_eq_le)
    from less [OF this [unfolded xeq]] obtain qs' where
      "flatten_path_combination (PathCombination c' qs) True = Inr (PathCombination c' qs')"
      "set qs' = (\<Union>p\<in>set qs. leaves p)" by auto
    then show ?thesis using xeq by (simp add: set_set_update)
  next
    case False
    then have "\<not> isinstance_cls x c" by (cases x) auto
    with False show ?thesis by (simp add: leaves_plain set_set_add)
  qed
  from fold_err_union [of ps ?f leaves "[]", OF step]
  obtain s' where "fold_err ?f ps [] = Inr s'" "set s' = (\<Union>p\<in>set ps. leaves p)"
    by auto
  then show ?case by (simp add: set_frozenset distinct_frozenset)
qed

lemma leaves_of_leaf: "q \<in> leaves x \<Longrightarrow> leaves q = {q}"
  by (induction x rule: leaves.induct) auto

lemma fold_err_append:
  "fold_err f (xs @ ys) s = (case fold_err f xs s of Inl e \<Rightarrow> Inl e | Inr s' \<Rightarrow> fold_err f ys s')"
  by (induction xs arbitrary: s) (auto split: sum.splits)

section \<open>Path identity: equality and link normalisation\<close>

lemma eq_loop_odd:
  "length other = length self \<Longrightarrow> odd (length self) \<Longrightarrow> odd i \<Longrightarrow>
   eq_loop self other i = (\<forall>j. i \<le> j \<and> j < length self \<longrightarrow> self ! j = other ! j)"
proof (induction self other i rule: eq_loop.induct)
  case (1 self other i)
  show ?case
  proof (cases "i < length self - 1")
    case False
    with "1.prems"(2,3) have "length self \<le> i"
      by presburger
    with False show ?thesis
      by (subst eq_loop.simps) auto
  next
    case True
    then have bounds: "i < length self" "i + 1 < length self"
      by arith+
    show ?thesis
    proof (cases "self ! i = other ! i \<and> self ! (i + 1) = other ! (i + 1)")
      case False
      have "\<not> eq_loop self other i"
        using True False by (subst eq_loop.simps) auto
      moreover have "\<not> (\<forall>j. i \<le> j \<and> j < length self \<longrightarrow> self ! j = other ! j)"
      proof
        assume all: "\<forall>j. i \<le> j \<and> j < length self \<longrightarrow> self ! j = other ! j"
        from all bounds(1) have "self ! i = other ! i" by simp
        moreover from all bounds(2) have "self ! (i + 1) = other ! (i + 1)" by simp
        ultimately show False using False by simp
      qed
      ultimately show ?thesis by simp
    next
      case eq: True
      have "eq_loop self other i = eq_loop self other (i + 2)"
        using True eq by (subst eq_loop.simps) simp
      also have "\<dots> = (\<forall>j. i + 2 \<le> j \<and> j < length self \<longrightarrow> self ! j = other ! j)"
        using "1.IH" True eq "1.prems" by simp
      also have "\<dots> = (\<forall>j. i \<le> j \<and> j < length self \<longrightarrow> self ! j = other ! j)"
      proof (intro iffI allI impI)
        fix j
        assume all: "\<forall>j. i + 2 \<le> j \<and> j < length self \<longrightarrow> self ! j = other ! j"
          and j: "i \<le> j \<and> j < length self"
        then consider "j = i" | "j = i + 1" | "i + 2 \<le> j"
          by arith
        then show "self ! j = other ! j"
        proof cases
          case 1
          then show ?thesis using eq by simp
        next
          case 2
          then show ?thesis using eq by simp
        next
          case 3
          then show ?thesis using all j by simp
        qed
      next
        fix j
        assume "\<forall>j. i \<le> j \<and> j < length self \<longrightarrow> self ! j = other ! j"
          and "i + 2 \<le> j \<and> j < length self"
        then show "self ! j = other ! j" by simp
      qed
      finally show ?thesis .
    qed
  qed
qed

lemma LinearPath_eq_iff:
  assumes "p = [] \<or> odd (length p)"
  shows "LinearPath_eq p q \<longleftrightarrow> length p = length q \<and> (\<forall>i<length p. p ! i = q ! i)"
proof (cases "length q = length p")
  case False
  then show ?thesis by (auto simp: LinearPath_eq_def)
next
  case len: True
  show ?thesis
  proof (cases "p = []")
    case True
    with len show ?thesis by (simp add: LinearPath_eq_def)
  next
    case False
    with assms have odd: "odd (length p)" by simp
    have loop: "eq_loop p q 1 = (\<forall>j. 1 \<le> j \<and> j < length p \<longrightarrow> p ! j = q ! j)"
      using eq_loop_odd [OF len odd, of 1] by simp
    have "(p ! 0 = q ! 0 \<and> (\<forall>j. 1 \<le> j \<and> j < length p \<longrightarrow> p ! j = q ! j))
        = (\<forall>i<length p. p ! i = q ! i)"
    proof (intro iffI allI impI conjI)
      fix i
      assume h: "p ! 0 = q ! 0 \<and> (\<forall>j. 1 \<le> j \<and> j < length p \<longrightarrow> p ! j = q ! j)"
        and i: "i < length p"
      show "p ! i = q ! i"
      proof (cases "i = 0")
        case True
        then show ?thesis using h by simp
      next
        case False
        then have "1 \<le> i" by simp
        then show ?thesis using h i by blast
      qed
    next
      assume "\<forall>i<length p. p ! i = q ! i"
      then show "p ! 0 = q ! 0" using False by simp
    next
      fix j
      assume "\<forall>i<length p. p ! i = q ! i" and "1 \<le> j \<and> j < length p"
      then show "p ! j = q ! j" by simp
    qed
    with loop show ?thesis
      using len False by (auto simp: LinearPath_eq_def)
  qed
qed

text \<open>
  A list of even length is not of the documented form
  \<open><concept> <link> <concept> ... <concept>\<close>, and no path built by \<open>add\<close> from a root has
  one. On such a list the loop never reads the last element.
\<close>

lemma LinearPath_eq_even_length:
  "LinearPath_eq [Node ''Person'', Step (Link ''owns'' True []) ''>'']
                 [Node ''Person'', Step (Link ''likes'' True []) ''>'']"
  by (simp add: LinearPath_eq_def eq_loop.simps)

lemma add_odd_length: "odd (length p) \<Longrightarrow> add p l d t = Inr p' \<Longrightarrow> odd (length p')"
  by (auto simp: add_def split: if_splits list.splits)

text \<open>
  Claim C5, as the code has it. For paths of the documented form (empty, or of odd length,
  which \<open>add\<close> preserves), \<open>__eq__\<close> holds exactly when the two paths have the same
  length and agree at every position. \<open>add\<close> stores a generic link unchanged and replaces
  a link that is not generic by its first base, \<open>bases[0]\<close>; without bases that read
  raises IndexError.
\<close>

theorem LinearPath_eq_positional:
  "((p = [] \<or> odd (length p)) \<longrightarrow>
      (LinearPath_eq p q \<longleftrightarrow> length p = length q \<and> (\<forall>i<length p. p ! i = q ! i)))
   \<and> (odd (length p) \<and> add p l d t = Inr p' \<longrightarrow> odd (length p'))
   \<and> (generic l \<longrightarrow> add p l d t = Inr (p @ [Step l d, Node t]))
   \<and> (\<not> generic l \<and> bases l = b # bs \<longrightarrow> add p l d t = Inr (p @ [Step b d, Node t]))
   \<and> (\<not> generic l \<and> bases l = [] \<longrightarrow> add p l d t = Inl IndexError)"
proof (intro conjI impI)
  assume "p = [] \<or> odd (length p)"
  then show "LinearPath_eq p q \<longleftrightarrow> length p = length q \<and> (\<forall>i<length p. p ! i = q ! i)"
    by (rule LinearPath_eq_iff)
next
  assume "odd (length p) \<and> add p l d t = Inr p'"
  then show "odd (length p')" using add_odd_length by blast
qed (simp_all add: add_def)

text \<open>
  The theorem at the path \<open>Person -[owns]-> Pet\<close>: it equals itself, differs from the path
  to \<open>Dog\<close>, and adding the step through the specialised link \<open>Person.owns\<close> records its
  base \<open>owns\<close>.
\<close>

theorem LinearPath_eq_positional_witness:
  "LinearPath_eq [Node ''Person'', Step (Link ''owns'' True []) ''>'', Node ''Pet'']
                 [Node ''Person'', Step (Link ''owns'' True []) ''>'', Node ''Pet'']
   \<and> \<not> LinearPath_eq [Node ''Person'', Step (Link ''owns'' True []) ''>'', Node ''Pet'']
                 [Node ''Person'', Step (Link ''owns'' True []) ''>'', Node ''Dog'']
   \<and> add [Node ''Person''] (Link ''Person.owns'' False [Link ''owns'' True []]) ''>'' ''Pet''
       = Inr [Node ''Person'', Step (Link ''owns'' True []) ''>'', Node ''Pet'']"
proof -
  let ?o = "Link ''owns'' True []"
  let ?p = "[Node ''Person'', Step ?o ''>'', Node ''Pet'']"
  let ?q = "[Node ''Person'', Step ?o ''>'', Node ''Dog'']"
  let ?l = "Link ''Person.owns'' False [?o]"
  have odd: "?p = [] \<or> odd (length ?p)" by simp
  have "LinearPath_eq ?p ?p = (length ?p = length ?p \<and> (\<forall>i<length ?p. ?p ! i = ?p ! i))"
    using LinearPath_eq_positional [of ?p ?p] odd by blast
  then have 1: "LinearPath_eq ?p ?p" by simp
  have "LinearPath_eq ?p ?q = (length ?p = length ?q \<and> (\<forall>i<length ?p. ?p ! i = ?q ! i))"
    using LinearPath_eq_positional [of ?p ?q] odd by blast
  moreover have "\<not> (\<forall>i<length ?p. ?p ! i = ?q ! i)"
    by (simp add: All_less_Suc)
  ultimately have 2: "\<not> LinearPath_eq ?p ?q" by blast
  have "\<not> generic ?l \<and> bases ?l = ?o # []" by simp
  then have 3: "add [Node ''Person''] ?l ''>'' ''Pet'' = Inr ([Node ''Person''] @ [Step ?o ''>'', Node ''Pet''])"
    using LinearPath_eq_positional
      [where p = "[Node ''Person'']" and l = ?l and d = "''>''" and t = "''Pet''"
         and b = ?o and bs = "[]"]
    by blast
  from 1 2 3 show ?thesis by simp
qed

text \<open>
  Claim C5 as stated fails: the generic link \<open>owns\<close>, whose base is \<open>link\<close>, is stored as
  it is, not as its topmost base, and the path through it does not compare equal to the
  path through that base.
\<close>

theorem generic_link_not_normalised:
  "generic (Link ''owns'' True [Link ''link'' True []])
   \<and> add [Node ''Person''] (Link ''owns'' True [Link ''link'' True []]) ''>'' ''Pet''
       = Inr [Node ''Person'', Step (Link ''owns'' True [Link ''link'' True []]) ''>'', Node ''Pet'']
   \<and> add [Node ''Person''] (Link ''owns'' True [Link ''link'' True []]) ''>'' ''Pet''
       \<noteq> Inr [Node ''Person'',
              Step (topmost_base (Link ''owns'' True [Link ''link'' True []])) ''>'', Node ''Pet'']
   \<and> \<not> LinearPath_eq
         [Node ''Person'', Step (Link ''owns'' True [Link ''link'' True []]) ''>'', Node ''Pet'']
         [Node ''Person'',
          Step (topmost_base (Link ''owns'' True [Link ''link'' True []])) ''>'', Node ''Pet'']"
  by (simp add: add_def LinearPath_eq_def eq_loop.simps)

section \<open>Flattening a path combination\<close>

text \<open>
  Claim C2, as the code has it. \<open>flatten_path_combination\<close> returns its argument, a
  combination of the same class, with new members. Not recursive: every member of the
  argument's class is replaced by its members, every other member is kept. Recursive:
  every member that is a combination, of either class, is flattened and replaced by its
  members, so what remains are the \<open>leaves\<close>, the nested members that are not combinations.
\<close>

theorem flatten_path_combination_members:
  "(\<exists>ps'. flatten_path_combination (PathCombination c ps) False = Inr (PathCombination c ps')
          \<and> set ps' = (\<Union>p\<in>set ps. absorbed c p))
   \<and> (\<exists>ps'. flatten_path_combination (PathCombination c ps) True = Inr (PathCombination c ps')
          \<and> set ps' = (\<Union>p\<in>set ps. leaves p))"
  using flatten_nonrecursive [of c ps] flatten_recursive [of c ps] by blast

text \<open>
  The theorem at \<open>Disjunction{Disjunction{Person}, Conjunction{Pet}}\<close>, not recursive: the
  nested disjunction is replaced by its member, the conjunction stays one member.
\<close>

theorem flatten_path_combination_members_witness:
  "\<exists>ps'. flatten_path_combination
            (PathCombination Disjunction
               [PathCombination Disjunction [EntitySet (Proto ''Person'') PyNone],
                PathCombination Conjunction [EntitySet (Proto ''Pet'') PyNone]]) False
          = Inr (PathCombination Disjunction ps')
        \<and> set ps' = {EntitySet (Proto ''Person'') PyNone,
                      PathCombination Conjunction [EntitySet (Proto ''Pet'') PyNone]}"
proof -
  let ?ps = "[PathCombination Disjunction [EntitySet (Proto ''Person'') PyNone],
              PathCombination Conjunction [EntitySet (Proto ''Pet'') PyNone]]"
  have u: "(\<Union>p\<in>set ?ps. absorbed Disjunction p)
      = {EntitySet (Proto ''Person'') PyNone,
         PathCombination Conjunction [EntitySet (Proto ''Pet'') PyNone]}"
    by (simp add: insert_commute)
  show ?thesis
    using flatten_path_combination_members [of Disjunction ?ps, THEN conjunct1]
    unfolding u .
qed

text \<open>
  Claim C2 as stated fails in the recursive mode, where the test
  \<open>recursive and isinstance(path, irast.PathCombination)\<close> admits the other class too: the
  conjunction inside the disjunction is dissolved, it is not a member of the result.
\<close>

theorem flatten_recursive_absorbs_other_class:
  "flatten_path_combination
     (PathCombination Disjunction
        [PathCombination Conjunction
           [EntitySet (Proto ''Person'') PyNone, EntitySet (Proto ''Pet'') PyNone]]) True
     = Inr (PathCombination Disjunction
              [EntitySet (Proto ''Person'') PyNone, EntitySet (Proto ''Pet'') PyNone])
   \<and> PathCombination Conjunction
         [EntitySet (Proto ''Person'') PyNone, EntitySet (Proto ''Pet'') PyNone]
       \<notin> set [EntitySet (Proto ''Person'') PyNone, EntitySet (Proto ''Pet'') PyNone]"
  by (simp add: set_update_def set_add_def frozenset_def)

text \<open>
  Claim C6, as the code has it. Recursive flattening is idempotent on every combination.
  Flattening that is not recursive dissolves one level only: it is idempotent when no member
  taken over from a nested combination of the same class is again of that class. A
  flat combination keeps its member set: in the non-recursive mode when no member is of
  its class, in the recursive mode when no member is a combination.
\<close>

theorem flatten_idempotence:
  "(\<exists>ps'. flatten_path_combination (PathCombination c ps) True = Inr (PathCombination c ps')
      \<and> (\<exists>ps''. flatten_path_combination (PathCombination c ps') True
                  = Inr (PathCombination c ps'') \<and> set ps'' = set ps'))
   \<and> ((\<forall>p\<in>set ps. \<forall>q\<in>absorbed c p. \<not> isinstance_cls q c) \<longrightarrow>
        (\<exists>ps'. flatten_path_combination (PathCombination c ps) False = Inr (PathCombination c ps')
           \<and> (\<exists>ps''. flatten_path_combination (PathCombination c ps') False
                       = Inr (PathCombination c ps'') \<and> set ps'' = set ps')))
   \<and> ((\<forall>p\<in>set ps. \<not> isinstance_cls p c) \<longrightarrow>
        (\<exists>ps'. flatten_path_combination (PathCombination c ps) False = Inr (PathCombination c ps')
           \<and> set ps' = set ps))
   \<and> ((\<forall>p\<in>set ps. \<not> is_PathCombination p) \<longrightarrow>
        (\<exists>ps'. flatten_path_combination (PathCombination c ps) True = Inr (PathCombination c ps')
           \<and> set ps' = set ps))"
proof (intro conjI impI)
  from flatten_recursive [of c ps] obtain ps' where
    1: "flatten_path_combination (PathCombination c ps) True = Inr (PathCombination c ps')"
    and s1: "set ps' = (\<Union>p\<in>set ps. leaves p)" by blast
  from flatten_recursive [of c ps'] obtain ps'' where
    2: "flatten_path_combination (PathCombination c ps') True = Inr (PathCombination c ps'')"
    and s2: "set ps'' = (\<Union>p\<in>set ps'. leaves p)" by blast
  have "\<forall>q\<in>set ps'. leaves q = {q}"
  proof
    fix q
    assume "q \<in> set ps'"
    with s1 obtain p where "q \<in> leaves p" by blast
    then show "leaves q = {q}" by (rule leaves_of_leaf)
  qed
  then have "(\<Union>p\<in>set ps'. leaves p) = set ps'" by simp
  with 1 2 s2 show "\<exists>ps'. flatten_path_combination (PathCombination c ps) True
        = Inr (PathCombination c ps')
      \<and> (\<exists>ps''. flatten_path_combination (PathCombination c ps') True
                  = Inr (PathCombination c ps'') \<and> set ps'' = set ps')"
    by auto
next
  assume flat2: "\<forall>p\<in>set ps. \<forall>q\<in>absorbed c p. \<not> isinstance_cls q c"
  from flatten_nonrecursive [of c ps] obtain ps' where
    1: "flatten_path_combination (PathCombination c ps) False = Inr (PathCombination c ps')"
    and s1: "set ps' = (\<Union>p\<in>set ps. absorbed c p)" by blast
  from flatten_nonrecursive [of c ps'] obtain ps'' where
    2: "flatten_path_combination (PathCombination c ps') False = Inr (PathCombination c ps'')"
    and s2: "set ps'' = (\<Union>p\<in>set ps'. absorbed c p)" by blast
  have "\<forall>q\<in>set ps'. absorbed c q = {q}"
  proof
    fix q
    assume "q \<in> set ps'"
    with s1 obtain p where "p \<in> set ps" "q \<in> absorbed c p" by blast
    with flat2 have "\<not> isinstance_cls q c" by blast
    then show "absorbed c q = {q}" by (rule absorbed_other)
  qed
  then have "(\<Union>p\<in>set ps'. absorbed c p) = set ps'" by simp
  with 1 2 s2 show "\<exists>ps'. flatten_path_combination (PathCombination c ps) False
        = Inr (PathCombination c ps')
      \<and> (\<exists>ps''. flatten_path_combination (PathCombination c ps') False
                  = Inr (PathCombination c ps'') \<and> set ps'' = set ps')"
    by auto
next
  assume flat: "\<forall>p\<in>set ps. \<not> isinstance_cls p c"
  from flatten_nonrecursive [of c ps] obtain ps' where
    1: "flatten_path_combination (PathCombination c ps) False = Inr (PathCombination c ps')"
    and s1: "set ps' = (\<Union>p\<in>set ps. absorbed c p)" by blast
  have "\<forall>p\<in>set ps. absorbed c p = {p}"
    using flat absorbed_other by blast
  then have "(\<Union>p\<in>set ps. absorbed c p) = set ps" by simp
  with 1 s1 show "\<exists>ps'. flatten_path_combination (PathCombination c ps) False
        = Inr (PathCombination c ps') \<and> set ps' = set ps"
    by auto
next
  assume flat: "\<forall>p\<in>set ps. \<not> is_PathCombination p"
  from flatten_recursive [of c ps] obtain ps' where
    1: "flatten_path_combination (PathCombination c ps) True = Inr (PathCombination c ps')"
    and s1: "set ps' = (\<Union>p\<in>set ps. leaves p)" by blast
  have "\<forall>p\<in>set ps. leaves p = {p}"
    using flat leaves_plain by blast
  then have "(\<Union>p\<in>set ps. leaves p) = set ps" by simp
  with 1 s1 show "\<exists>ps'. flatten_path_combination (PathCombination c ps) True
        = Inr (PathCombination c ps') \<and> set ps' = set ps"
    by auto
qed

text \<open>
  The theorem at \<open>Disjunction{Disjunction{Person}, Pet}\<close>, whose nested disjunction holds no
  further disjunction, and at the flat \<open>Disjunction{Person, Pet}\<close>.
\<close>

theorem flatten_idempotence_witness:
  "(\<exists>ps'. flatten_path_combination
             (PathCombination Disjunction
                [PathCombination Disjunction [EntitySet (Proto ''Person'') PyNone],
                 EntitySet (Proto ''Pet'') PyNone]) False
           = Inr (PathCombination Disjunction ps')
         \<and> (\<exists>ps''. flatten_path_combination (PathCombination Disjunction ps') False
                     = Inr (PathCombination Disjunction ps'') \<and> set ps'' = set ps'))
   \<and> (\<exists>ps'. flatten_path_combination
             (PathCombination Disjunction
                [EntitySet (Proto ''Person'') PyNone, EntitySet (Proto ''Pet'') PyNone]) False
           = Inr (PathCombination Disjunction ps')
         \<and> set ps' = set [EntitySet (Proto ''Person'') PyNone, EntitySet (Proto ''Pet'') PyNone])
   \<and> (\<exists>ps'. flatten_path_combination
             (PathCombination Disjunction
                [EntitySet (Proto ''Person'') PyNone, EntitySet (Proto ''Pet'') PyNone]) True
           = Inr (PathCombination Disjunction ps')
         \<and> set ps' = set [EntitySet (Proto ''Person'') PyNone, EntitySet (Proto ''Pet'') PyNone])"
proof -
  let ?a = "EntitySet (Proto ''Person'') PyNone"
  let ?b = "EntitySet (Proto ''Pet'') PyNone"
  let ?nested = "[PathCombination Disjunction [?a], ?b]"
  let ?flat = "[?a, ?b]"
  have h1: "\<forall>p\<in>set ?nested. \<forall>q\<in>absorbed Disjunction p. \<not> isinstance_cls q Disjunction"
    by simp
  have h2: "\<forall>p\<in>set ?flat. \<not> isinstance_cls p Disjunction" by simp
  have h3: "\<forall>p\<in>set ?flat. \<not> is_PathCombination p" by simp
  note n = flatten_idempotence [of Disjunction ?nested]
  note f = flatten_idempotence [of Disjunction ?flat]
  show ?thesis
    using n [THEN conjunct2, THEN conjunct1, THEN mp, OF h1]
      f [THEN conjunct2, THEN conjunct2, THEN conjunct1, THEN mp, OF h2]
      f [THEN conjunct2, THEN conjunct2, THEN conjunct2, THEN mp, OF h3]
    by (intro conjI)
qed

text \<open>
  Claim C6 as stated fails for \<open>recursive = False\<close>: a disjunction nested three deep loses
  one level with each call, so the second call changes the member set again.
\<close>

theorem flatten_nonrecursive_not_idempotent:
  "flatten_path_combination
     (PathCombination Disjunction
        [PathCombination Disjunction
           [PathCombination Disjunction [EntitySet (Proto ''Person'') PyNone]]]) False
     = Inr (PathCombination Disjunction
              [PathCombination Disjunction [EntitySet (Proto ''Person'') PyNone]])
   \<and> flatten_path_combination
       (PathCombination Disjunction
          [PathCombination Disjunction [EntitySet (Proto ''Person'') PyNone]]) False
     = Inr (PathCombination Disjunction [EntitySet (Proto ''Person'') PyNone])
   \<and> set [PathCombination Disjunction [EntitySet (Proto ''Person'') PyNone]]
       \<noteq> set [EntitySet (Proto ''Person'') PyNone]"
  by (simp add: set_update_def set_add_def frozenset_def)

section \<open>The combination rule of the path extractor\<close>

lemma fst_set_add_object: "fst ` set (add_object r s) = insert (fst r) (fst ` set s)"
  by (auto simp: add_object_def)

lemma distinct_add_object: "distinct (map fst s) \<Longrightarrow> distinct (map fst (add_object r s))"
  by (auto simp: add_object_def)

lemma foldl_add_object:
  "fst ` set (foldl (\<lambda>s r. add_object r s) s rs) = fst ` set s \<union> fst ` set rs
   \<and> (distinct (map fst s) \<longrightarrow> distinct (map fst (foldl (\<lambda>s r. add_object r s) s rs)))
   \<and> set (foldl (\<lambda>s r. add_object r s) s rs) \<subseteq> set s \<union> set rs"
proof (induction rs arbitrary: s)
  case Nil
  then show ?case by simp
next
  case (Cons r rs)
  have "set (add_object r s) \<subseteq> set s \<union> {r}" by (auto simp: add_object_def)
  with Cons [of "add_object r s"] show ?case
    by (auto simp: fst_set_add_object distinct_add_object)
qed

lemma set_of_objects_ids:
  "fst ` set (set_of_objects results) = fst ` set results"
  "distinct (map fst (set_of_objects results))"
  "set (set_of_objects results) \<subseteq> set results"
  using foldl_add_object [of "[]" results] by (simp_all add: set_of_objects_def)








text \<open>
  Two different nodes with equal attributes are two results: they are wrapped, not returned
  as one node.
\<close>

lemma combine_field_results_equal_nodes:
  "combine_field_results
     [(1, EntitySet (Proto ''Person'') PyNone), (2, EntitySet (Proto ''Person'') PyNone)]
     Conjunction False
   = Inr (PathCombination Conjunction
            [EntitySet (Proto ''Person'') PyNone, EntitySet (Proto ''Person'') PyNone])"
  by (simp add: combine_field_results_def set_of_objects_def add_object_def)

section \<open>Reverse extraction from an entity set\<close>

lemma walk_rlinks_chain:
  "is_chain x \<Longrightarrow> walk_rlinks x paths = Inr (last (x # ancestors x), paths @ ancestors x)"
proof (induction x arbitrary: paths rule: is_chain.induct)
  case (1 c)
  show ?case by (subst walk_rlinks.simps) simp
next
  case (2 c src t lp)
  then have "walk_rlinks src (paths @ [src])
      = Inr (last (src # ancestors src), (paths @ [src]) @ ancestors src)"
    by simp
  then show ?case by (subst walk_rlinks.simps) simp
qed simp_all

lemma chain_root: "is_chain x \<Longrightarrow> rlink_attr (last (x # ancestors x)) = Inr PyNone"
  by (induction x rule: is_chain.induct) simp_all

lemma ancestors_smaller: "a \<in> set (ancestors x) \<Longrightarrow> size a < size x"
  by (induction x rule: ancestors.induct) auto

lemma distinct_ancestors: "distinct (x # ancestors x)"
proof (induction x rule: ancestors.induct)
  case (1 c src t lp)
  have "EntitySet c (EntityLink src t lp) \<notin> set (ancestors (EntitySet c (EntityLink src t lp)))"
    using ancestors_smaller by blast
  with 1 show ?case by simp
qed simp_all

text \<open>
  Claim C3, as the code has it. On a well-formed chain, reverse mode walks \<open>rlink.source\<close>
  to the root, the entity set without \<open>rlink\<close>. The result is the root alone when
  \<open>all_fragments\<close> is unset or the node has no \<open>rlink\<close>; with \<open>all_fragments\<close> set and an
  \<open>rlink\<close> present it is the Disjunction of every entity set on the chain, from the node
  itself to the root. Forward mode returns the node.
\<close>

theorem visit_EntitySet_reverse:
  "is_chain path \<longrightarrow>
     (reverse self \<longrightarrow>
        visit_EntitySet self path =
          Inr (if ancestors path = [] \<or> \<not> all_fragments self
               then last (path # ancestors path)
               else PathCombination Disjunction (path # ancestors path)))
     \<and> rlink_attr (last (path # ancestors path)) = Inr PyNone
     \<and> (\<not> reverse self \<longrightarrow> visit_EntitySet self path = Inr path)"
proof (intro impI conjI)
  assume c: "is_chain path" and r: "reverse self"
  have "walk_rlinks path [path] = Inr (last (path # ancestors path), path # ancestors path)"
    using walk_rlinks_chain [OF c, of "[path]"] by simp
  moreover have "frozenset (path # ancestors path) = path # ancestors path"
    using distinct_ancestors by (rule frozenset_distinct)
  ultimately show "visit_EntitySet self path =
          Inr (if ancestors path = [] \<or> \<not> all_fragments self
               then last (path # ancestors path)
               else PathCombination Disjunction (path # ancestors path))"
    using r by (simp add: visit_EntitySet_def)
next
  assume "is_chain path"
  then show "rlink_attr (last (path # ancestors path)) = Inr PyNone" by (rule chain_root)
next
  assume "\<not> reverse self"
  then show "visit_EntitySet self path = Inr path" by (simp add: visit_EntitySet_def)
qed

text \<open>
  The scenario \<open>Person -> owns -> Pet\<close>: reverse extraction from \<open>Pet\<close>, \<open>all_fragments\<close>
  unset, returns the root \<open>Person\<close>.
\<close>

theorem visit_EntitySet_reverse_witness:
  "visit_EntitySet
     \<lparr>reverse = True, resolve_arefs = True, recurse_subqueries = 0, all_fragments = False,
      extract_subgraph_refs = False\<rparr>
     (EntitySet (Proto ''Pet'')
        (EntityLink (EntitySet (Proto ''Person'') PyNone) PyNone (Proto ''owns'')))
   = Inr (EntitySet (Proto ''Person'') PyNone)"
proof -
  let ?person = "EntitySet (Proto ''Person'') PyNone"
  let ?pet = "EntitySet (Proto ''Pet'') (EntityLink ?person PyNone (Proto ''owns''))"
  let ?self = "\<lparr>reverse = True, resolve_arefs = True, recurse_subqueries = 0,
      all_fragments = False, extract_subgraph_refs = False\<rparr>"
  have "is_chain ?pet" by simp
  moreover have "reverse ?self" by simp
  ultimately have "visit_EntitySet ?self ?pet =
      Inr (if ancestors ?pet = [] \<or> \<not> all_fragments ?self
           then last (?pet # ancestors ?pet)
           else PathCombination Disjunction (?pet # ancestors ?pet))"
    using visit_EntitySet_reverse [of ?pet ?self] by blast
  then show ?thesis by simp
qed

text \<open>
  Claim C3 as stated fails with \<open>all_fragments\<close> set: the chain \<open>Person -> owns -> Pet\<close>
  has the single root \<open>Person\<close>, yet the result is the Disjunction of \<open>Pet\<close> and \<open>Person\<close>,
  not the root alone.
\<close>

theorem visit_EntitySet_all_fragments_chain:
  "visit_EntitySet
     \<lparr>reverse = True, resolve_arefs = True, recurse_subqueries = 0, all_fragments = True,
      extract_subgraph_refs = False\<rparr>
     (EntitySet (Proto ''Pet'')
        (EntityLink (EntitySet (Proto ''Person'') PyNone) PyNone (Proto ''owns'')))
   = Inr (PathCombination Disjunction
            [EntitySet (Proto ''Pet'')
               (EntityLink (EntitySet (Proto ''Person'') PyNone) PyNone (Proto ''owns'')),
             EntitySet (Proto ''Person'') PyNone])
   \<and> visit_EntitySet
     \<lparr>reverse = True, resolve_arefs = True, recurse_subqueries = 0, all_fragments = True,
      extract_subgraph_refs = False\<rparr>
     (EntitySet (Proto ''Pet'')
        (EntityLink (EntitySet (Proto ''Person'') PyNone) PyNone (Proto ''owns'')))
   \<noteq> Inr (EntitySet (Proto ''Person'') PyNone)"
  by (simp add: visit_EntitySet_def walk_rlinks.simps frozenset_def set_update_def set_add_def)

section \<open>Prefix extraction leaves queries and constants alone\<close>

text \<open>
  Claim C10. For a full query expression and for a constant, \<open>extract_prefixes\<close> returns
  the index it was given, unchanged, whatever the node contains; called without an index
  it returns the new, empty one.
\<close>

theorem extract_prefixes_GraphExpr_Constant:
  "extract_prefixes get_id (GraphExpr generator selector grouper sorter) (Some prefixes)
     = Inr prefixes
   \<and> extract_prefixes get_id (Constant expr type index) (Some prefixes) = Inr prefixes
   \<and> extract_prefixes get_id (GraphExpr generator selector grouper sorter) None = Inr Map.empty
   \<and> extract_prefixes get_id (Constant expr type index) None = Inr Map.empty"
  by (simp add: index_or_new_def)

text \<open>
  For comparison: an entity set with an identity is recorded under it, and a node class
  the function does not know fails the final assertion.
\<close>

lemma extract_prefixes_records_EntitySet:
  "extract_prefixes (\<lambda>n. KStr ''Person'') (EntitySet (Proto ''Person'') PyNone) (Some Map.empty)
     = Inr [KStr ''Person'' \<mapsto> {EntitySet (Proto ''Person'') PyNone}]"
  by (simp add: index_or_new_def record_prefix_def PathIndex_setitem_def)

lemma extract_prefixes_unexpected_node:
  "extract_prefixes get_id MetaRef prefixes = Inl AssertionError"
  by simp

section \<open>The result of type inference\<close>






section \<open>The reversed-operator fallback\<close>

lemma swap_direction_fields:
  "get (swap_direction op s) = get s"
  "resolve_pointer (swap_direction op s) = resolve_pointer s"
  "getptr (swap_direction op s) = getptr s"
  "ptr_target (swap_direction op s) = ptr_target s"
  "get_result (swap_direction op s) (Fwd op) = get_result s (Reversed op)"
  "get_result (swap_direction op s) (Reversed op) = get_result s (Fwd op)"
  by (simp_all add: swap_direction_def)

text \<open>
  Exchanging the rule direction of \<open>op\<close> changes no other entry of the catalogue, so the
  type of an expression in which \<open>op\<close> does not occur stays the same.
\<close>

lemma expr_attr_has_op: "expr_attr s = Inr x \<Longrightarrow> has_op op x \<Longrightarrow> has_op op s"
  by (cases s) auto

lemma swap_direction_other:
  "get (swap_direction op s) = get s"
  "resolve_pointer (swap_direction op s) = resolve_pointer s"
  "getptr (swap_direction op s) = getptr s"
  "ptr_target (swap_direction op s) = ptr_target s"
  "returntype (swap_direction op s) = returntype s"
  "get_prototype_nearest_common_ancestor (swap_direction op s)
     = get_prototype_nearest_common_ancestor s"
  "from_subtypes (swap_direction op s) = from_subtypes s"
  "o' \<noteq> op \<Longrightarrow> get_result (swap_direction op s) (Fwd o') = get_result s (Fwd o')"
  "o' \<noteq> op \<Longrightarrow> get_result (swap_direction op s) (Reversed o') = get_result s (Reversed o')"
  by (simp_all add: swap_direction_def)

lemma infer_type_without_op:
  fixes op :: operator and s :: schema
  defines "s' \<equiv> swap_direction op s"
  shows "schema = s \<Longrightarrow> \<not> has_op op ir \<Longrightarrow> infer_type ir s' = infer_type ir schema"
    and "schema = s \<Longrightarrow> \<not> has_op op ir2 \<Longrightarrow>
           infer_type_result ir2 s' = infer_type_result ir2 schema"
proof (induction ir schema and ir2 schema rule: infer_type_infer_type_result.induct)
  case (1 ir schema)
  then show ?case by simp
next
  case (15 generator selector grouper sorter schema)
  note eq = \<open>schema = s\<close>
  note no = \<open>\<not> has_op op (GraphExpr generator selector grouper sorter)\<close>
  show ?case
  proof (cases selector)
    case Nil
    then show ?thesis by simp
  next
    case (Cons x xs)
    show ?thesis
    proof (cases xs)
      case Nil
      show ?thesis
      proof (cases "expr_attr x")
        case (Inl e)
        with Cons Nil show ?thesis by simp
      next
        case (Inr y)
        from no Cons have "\<not> has_op op x" by simp
        with Inr have "\<not> has_op op y" using expr_attr_has_op by blast
        with "15.IH" Cons Nil Inr eq have "infer_type y s' = infer_type y schema" by blast
        with Cons Nil Inr show ?thesis by simp
      qed
    next
      case (Cons z zs)
      with \<open>selector = x # xs\<close> show ?thesis by simp
    qed
  qed
qed (auto simp: s'_def swap_direction_other split: sum.splits list.splits ir.splits)

text \<open>
  Claim C4, as the code has it. Let \<open>op\<close> be neither a comparison, a type-check nor a membership operator, with
  no rule registered under \<open>op\<close> itself (every forward lookup gives \<open>None\<close>). Then
  \<open>infer_type(BinOp(left=A, op=op, right=B))\<close> equals
  \<open>infer_type(BinOp(left=B, op=op, right=A))\<close> taken with the direction of the rules of
  \<open>op\<close> exchanged: it is the rule registered under \<open>(op, 'reversed')\<close>, applied to the types
  of \<open>B\<close> and \<open>A\<close> in this order. The operands are such that their own types do not
  depend on the direction of the rules of \<open>op\<close>, as is the case when \<open>op\<close> does not occur in
  them (lemma \<open>infer_type_without_op\<close>), and they do not raise two different exceptions
  (the left operand is inferred first, so the exchange would change which one is raised).
\<close>

theorem infer_type_reversed_fallback:
  assumes op: "\<not> isinstance_op op ComparisonOperator \<and> \<not> isinstance_op op TypeCheckOperator
               \<and> \<not> isinstance_op op MembershipOperator"
    and only_reversed: "\<forall>ts. get_result schema (Fwd op) ts = Inr PNone"
    and A: "infer_type A (swap_direction op schema) = infer_type A schema"
    and B: "infer_type B (swap_direction op schema) = infer_type B schema"
    and errors: "isl (infer_type A schema) \<and> isl (infer_type B schema)
                 \<longrightarrow> infer_type A schema = infer_type B schema"
  shows "infer_type (BinOp A op B) schema
           = infer_type (BinOp B op A) (swap_direction op schema)
         \<and> (\<forall>ta tb. infer_type A schema = Inr ta \<and> infer_type B schema = Inr tb \<longrightarrow>
               infer_type (BinOp A op B) schema
                 = (case get_result schema (Reversed op) [tb, ta] of
                      Inl e \<Rightarrow> Inl e
                    | Inr result \<Rightarrow> assert_prototype result))"
proof (intro conjI allI impI)
  show "infer_type (BinOp A op B) schema = infer_type (BinOp B op A) (swap_direction op schema)"
  proof (cases "infer_type A schema")
    case (Inl e)
    note a = this
    show ?thesis
    proof (cases "infer_type B schema")
      case (Inl e')
      with a errors have "e = e'" by simp
      with a Inl op A B show ?thesis by simp
    next
      case (Inr tb)
      with a op A B show ?thesis by simp
    qed
  next
    case (Inr ta)
    note a = this
    show ?thesis
    proof (cases "infer_type B schema")
      case (Inl e')
      with a op A B show ?thesis by simp
    next
      case (Inr tb)
      show ?thesis
      proof (cases "get_result schema (Reversed op) [tb, ta]")
        case (Inl e)
        with a Inr op A B only_reversed show ?thesis
          by (simp add: swap_direction_fields)
      next
        case r: (Inr r)
        with a Inr op A B only_reversed show ?thesis
          by (simp add: swap_direction_fields)
      qed
    qed
  qed
next
  fix ta tb
  assume "infer_type A schema = Inr ta \<and> infer_type B schema = Inr tb"
  with op only_reversed show "infer_type (BinOp A op B) schema
      = (case get_result schema (Reversed op) [tb, ta] of
           Inl e \<Rightarrow> Inl e
         | Inr result \<Rightarrow> assert_prototype result)"
    by simp
qed

text \<open>
  The theorem for \<open>'+'\<close>, whose only rule is the reversed one for an integer and a
  string: a string constant plus an integer constant is a string, on both sides.
\<close>

theorem infer_type_reversed_fallback_witness:
  "infer_type (BinOp (Constant PyNone (Proto ''std::str'') None) plus_op
                 (Constant PyNone (Proto ''std::int'') None)) example_schema
     = Inr (Proto ''std::str'')
   \<and> infer_type (BinOp (Constant PyNone (Proto ''std::int'') None) plus_op
                   (Constant PyNone (Proto ''std::str'') None))
       (swap_direction plus_op example_schema)
     = Inr (Proto ''std::str'')"
proof -
  let ?A = "Constant PyNone (Proto ''std::str'') None"
  let ?B = "Constant PyNone (Proto ''std::int'') None"
  have op: "\<not> isinstance_op plus_op ComparisonOperator \<and> \<not> isinstance_op plus_op TypeCheckOperator
               \<and> \<not> isinstance_op plus_op MembershipOperator"
    by (simp add: plus_op_def isinstance_op_def)
  have only_reversed: "\<forall>ts. get_result example_schema (Fwd plus_op) ts = Inr PNone"
    by (simp add: example_schema_def)
  have A: "infer_type ?A (swap_direction plus_op example_schema) = infer_type ?A example_schema"
    by simp
  have B: "infer_type ?B (swap_direction plus_op example_schema) = infer_type ?B example_schema"
    by simp
  have errors: "isl (infer_type ?A example_schema) \<and> isl (infer_type ?B example_schema)
                 \<longrightarrow> infer_type ?A example_schema = infer_type ?B example_schema"
    by (simp add: assert_prototype_def)
  have eq: "infer_type (BinOp ?A plus_op ?B) example_schema
      = infer_type (BinOp ?B plus_op ?A) (swap_direction plus_op example_schema)"
    using infer_type_reversed_fallback [OF op only_reversed A B errors, THEN conjunct1] .
  have "infer_type (BinOp ?A plus_op ?B) example_schema = Inr (Proto ''std::str'')"
    using op by (simp add: example_schema_def assert_prototype_def)
  with eq show ?thesis by simp
qed

text \<open>
  Claim C4 as stated, for all operand expressions, fails. With \<open>'+'\<close> applied inside the
  operand \<open>'text' + 1\<close>, the expression \<open>('text' + 1) + 1\<close> is a string, while with the
  operands exchanged the result is \<open>None\<close>, under the exchanged rule direction and under
  the unchanged table alike. And two operands that raise different exceptions give the
  exception of the left one: LookupError on one side, AssertionError on the other.
\<close>

theorem infer_type_reversed_fallback_nested:
  "infer_type (BinOp nested_plus plus_op (Constant PyNone (Proto ''std::int'') None))
       example_schema = Inr (Proto ''std::str'')
   \<and> infer_type (BinOp (Constant PyNone (Proto ''std::int'') None) plus_op nested_plus)
       (swap_direction plus_op example_schema) = Inr PNone
   \<and> infer_type (BinOp (Constant PyNone (Proto ''std::int'') None) plus_op nested_plus)
       example_schema = Inr PNone
   \<and> infer_type (BinOp (AtomicRefSimple (EntitySet (Proto ''Person'') PyNone) ''missing'')
                   plus_op
                   (LinkPropRefSimple (EntityLink PyNone PyNone (Proto ''owns'')) ''missing''))
       example_schema = Inl LookupError
   \<and> infer_type (BinOp (LinkPropRefSimple (EntityLink PyNone PyNone (Proto ''owns'')) ''missing'')
                   plus_op
                   (AtomicRefSimple (EntitySet (Proto ''Person'') PyNone) ''missing''))
       (swap_direction plus_op example_schema) = Inl AssertionError"
  by (simp add: nested_plus_def plus_op_def example_schema_def isinstance_op_def
        assert_prototype_def swap_direction_def)

section \<open>Conflicting parameter types\<close>

lemma arg_types_step_Inr:
  "arg_types_step schema b m = Inr m1 \<Longrightarrow>
     (\<forall>i t. m i = Some t \<longrightarrow> m1 i = Some t)
     \<and> (\<forall>i t. infer_arg_type schema b = Inr (Some (i, t)) \<longrightarrow> m1 i = Some t)
     \<and> (\<forall>i t. m1 i = Some t \<longrightarrow> m i = Some t \<or> infer_arg_type schema b = Inr (Some (i, t)))"
  by (auto simp: arg_types_step_def store_arg_type_def
           split: sum.splits option.splits if_splits prod.splits)

lemma arg_types_step_Inl:
  "infer_arg_type schema b = Inr r \<Longrightarrow> arg_types_step schema b m = Inl e \<Longrightarrow>
     e = ValueError_ambiguous_resolution"
  by (auto simp: arg_types_step_def store_arg_type_def
           split: sum.splits option.splits if_splits prod.splits)

lemma arg_types_step_consistent:
  "infer_arg_type schema b = Inr r \<Longrightarrow>
   (\<forall>i t t'. r = Some (i, t) \<and> m i = Some t' \<longrightarrow> t' = t) \<Longrightarrow>
   \<exists>m1. arg_types_step schema b m = Inr m1"
  by (auto simp: arg_types_step_def store_arg_type_def
           split: sum.splits option.splits if_splits prod.splits)

lemma fold_arg_types_Inr:
  "fold_err (arg_types_step schema) ops m = Inr m' \<Longrightarrow>
     (\<forall>i t. m i = Some t \<longrightarrow> m' i = Some t)
     \<and> (\<forall>b\<in>set ops. \<forall>i t. infer_arg_type schema b = Inr (Some (i, t)) \<longrightarrow> m' i = Some t)"
proof (induction ops arbitrary: m)
  case Nil
  then show ?case by simp
next
  case (Cons b ops)
  from Cons.prems obtain m1 where
    s: "arg_types_step schema b m = Inr m1" and f: "fold_err (arg_types_step schema) ops m1 = Inr m'"
    by (cases "arg_types_step schema b m") auto
  from arg_types_step_Inr [OF s] Cons.IH [OF f] show ?case
    by (metis set_ConsD)
qed

lemma fold_arg_types_Inl:
  "\<forall>b\<in>set ops. \<exists>r. infer_arg_type schema b = Inr r \<Longrightarrow>
   fold_err (arg_types_step schema) ops m = Inl e \<Longrightarrow> e = ValueError_ambiguous_resolution"
proof (induction ops arbitrary: m)
  case Nil
  then show ?case by simp
next
  case (Cons b ops)
  from Cons.prems(1) obtain r where r: "infer_arg_type schema b = Inr r" by auto
  show ?case
  proof (cases "arg_types_step schema b m")
    case (Inl e')
    with Cons.prems(2) have "e' = e" by simp
    with Inl r show ?thesis using arg_types_step_Inl by blast
  next
    case (Inr m1)
    with Cons.prems have "fold_err (arg_types_step schema) ops m1 = Inl e" by simp
    moreover from Cons.prems(1) have "\<forall>b\<in>set ops. \<exists>r. infer_arg_type schema b = Inr r" by simp
    ultimately show ?thesis using Cons.IH by blast
  qed
qed

lemma fold_arg_types_agree:
  "\<forall>b\<in>set ops. \<exists>r. infer_arg_type schema b = Inr r \<Longrightarrow>
   \<forall>b\<in>set ops. \<forall>i t t'. infer_arg_type schema b = Inr (Some (i, t)) \<and> m i = Some t'
      \<longrightarrow> t' = t \<Longrightarrow>
   \<forall>b1\<in>set ops. \<forall>b2\<in>set ops. \<forall>i t1 t2.
      infer_arg_type schema b1 = Inr (Some (i, t1)) \<and> infer_arg_type schema b2 = Inr (Some (i, t2))
      \<longrightarrow> t1 = t2 \<Longrightarrow>
   \<exists>m'. fold_err (arg_types_step schema) ops m = Inr m'"
proof (induction ops arbitrary: m)
  case Nil
  then show ?case by simp
next
  case (Cons b ops)
  from Cons.prems(1) obtain r where r: "infer_arg_type schema b = Inr r" by auto
  have "\<forall>i t t'. r = Some (i, t) \<and> m i = Some t' \<longrightarrow> t' = t"
    using Cons.prems(2) r by (meson list.set_intros(1))
  from arg_types_step_consistent [OF r this] obtain m1 where
    s: "arg_types_step schema b m = Inr m1" by blast
  have 1: "\<forall>b\<in>set ops. \<exists>r. infer_arg_type schema b = Inr r"
    using Cons.prems(1) by simp
  have 3: "\<forall>b1\<in>set ops. \<forall>b2\<in>set ops. \<forall>i t1 t2.
      infer_arg_type schema b1 = Inr (Some (i, t1)) \<and> infer_arg_type schema b2 = Inr (Some (i, t2))
      \<longrightarrow> t1 = t2"
    using Cons.prems(3) by (meson list.set_intros(2))
  have 2: "\<forall>b'\<in>set ops. \<forall>i t t'. infer_arg_type schema b' = Inr (Some (i, t)) \<and> m1 i = Some t'
      \<longrightarrow> t' = t"
  proof (intro ballI allI impI)
    fix b' i t t'
    assume b': "b' \<in> set ops"
      and h: "infer_arg_type schema b' = Inr (Some (i, t)) \<and> m1 i = Some t'"
    from arg_types_step_Inr [OF s] h
    consider "m i = Some t'" | "infer_arg_type schema b = Inr (Some (i, t'))" by blast
    then show "t' = t"
    proof cases
      case 1
      with Cons.prems(2) b' h show ?thesis by (meson list.set_intros(2))
    next
      case 2
      with Cons.prems(3) b' h show ?thesis by (meson list.set_intros)
    qed
  qed
  from Cons.IH [OF 1 2 3] obtain m' where "fold_err (arg_types_step schema) ops m1 = Inr m'"
    by blast
  with s show ?case by simp
qed

lemma infer_arg_types_conflict_reached:
  assumes ops: "find_children ir flt = pre @ bb # post"
    and pre: "\<forall>b\<in>set pre. \<exists>r. infer_arg_type schema b = Inr r"
    and ba: "ba \<in> set pre" "infer_arg_type schema ba = Inr (Some (i, ta))"
    and bb: "infer_arg_type schema bb = Inr (Some (i, tb))"
    and ne: "ta \<noteq> tb"
  shows "infer_arg_types find_children ir schema = Inl ValueError_ambiguous_resolution"
proof (cases "fold_err (arg_types_step schema) pre Map.empty")
  case (Inl e)
  with fold_arg_types_Inl [OF pre Inl] ops show ?thesis
    by (simp add: infer_arg_types_def fold_err_append)
next
  case (Inr m1)
  from fold_arg_types_Inr [OF Inr] ba have "m1 i = Some ta" by blast
  with bb ne have "arg_types_step schema bb m1 = Inl ValueError_ambiguous_resolution"
    by (simp add: arg_types_step_def store_arg_type_def)
  with Inr ops show ?thesis
    by (simp add: infer_arg_types_def fold_err_append)
qed

lemma example_binops:
  "infer_arg_type example_schema age_gt_param = Inr (Some (0, Proto ''std::int''))"
  "infer_arg_type example_schema name_eq_param = Inr (Some (0, Proto ''std::str''))"
  "infer_arg_type example_schema age_lt_param = Inr (Some (0, Proto ''std::int''))"
  by (simp_all add: age_gt_param_def name_eq_param_def age_lt_param_def example_schema_def
        isinstance_op_def assert_prototype_def)

lemma example_children:
  "example_find_children (Sequence [age_gt_param, name_eq_param]) flt
     = [age_gt_param, name_eq_param]"
  "example_find_children (Sequence [age_gt_param, age_lt_param]) flt
     = [age_gt_param, age_lt_param]"
  "example_find_children (Sequence [age_gt_param, name_eq_param, is_param]) flt
     = [age_gt_param, name_eq_param, is_param]"
  "example_find_children (Sequence [is_param, age_gt_param, name_eq_param]) flt
     = [is_param, age_gt_param, name_eq_param]"
  by (simp_all add: example_find_children_def age_gt_param_def name_eq_param_def
        age_lt_param_def is_param_def)

lemma example_unsupported:
  "infer_arg_type example_schema is_param = Inl ValueError_unsupported_operator"
  by (simp add: is_param_def isinstance_op_def)

text \<open>
  Claim C8, as the code has it. \<open>ops\<close> is the list \<open>find_children(ir, flt)\<close> the loop runs
  over. When two occurrences in it give the same parameter index two different types,
  \<open>infer_arg_types\<close> returns no mapping: it raises. The exception is the ValueError
  "ambiguous resolution" when the loop reaches the second of the two occurrences, that is
  when no occurrence before it raises in the inference of its own type, and so in
  particular when no occurrence at all does. A mapping that is returned gives every index
  the type inferred at each of its occurrences. When every occurrence is typed and the
  occurrences of each index agree, a mapping is returned.
\<close>

theorem infer_arg_types_ambiguous:
  "(ba \<in> set (find_children ir flt) \<and> bb \<in> set (find_children ir flt)
      \<and> infer_arg_type schema ba = Inr (Some (i, ta))
      \<and> infer_arg_type schema bb = Inr (Some (i, tb)) \<and> ta \<noteq> tb \<longrightarrow>
      (\<exists>e. infer_arg_types find_children ir schema = Inl e)
      \<and> ((\<forall>b\<in>set (find_children ir flt). \<exists>r. infer_arg_type schema b = Inr r) \<longrightarrow>
           infer_arg_types find_children ir schema = Inl ValueError_ambiguous_resolution))
   \<and> (find_children ir flt = pre @ bb # post
        \<and> (\<forall>b\<in>set pre. \<exists>r. infer_arg_type schema b = Inr r)
        \<and> ba \<in> set pre \<and> infer_arg_type schema ba = Inr (Some (i, ta))
        \<and> infer_arg_type schema bb = Inr (Some (i, tb)) \<and> ta \<noteq> tb \<longrightarrow>
        infer_arg_types find_children ir schema = Inl ValueError_ambiguous_resolution)
   \<and> (infer_arg_types find_children ir schema = Inr m \<longrightarrow>
        (\<forall>b\<in>set (find_children ir flt). \<forall>j t.
            infer_arg_type schema b = Inr (Some (j, t)) \<longrightarrow> m j = Some t))
   \<and> ((\<forall>b\<in>set (find_children ir flt). \<exists>r. infer_arg_type schema b = Inr r)
        \<and> (\<forall>c1\<in>set (find_children ir flt). \<forall>c2\<in>set (find_children ir flt). \<forall>j u1 u2.
              infer_arg_type schema c1 = Inr (Some (j, u1))
              \<and> infer_arg_type schema c2 = Inr (Some (j, u2)) \<longrightarrow> u1 = u2) \<longrightarrow>
        (\<exists>m'. infer_arg_types find_children ir schema = Inr m'
           \<and> (\<forall>b\<in>set (find_children ir flt). \<forall>j t.
                 infer_arg_type schema b = Inr (Some (j, t)) \<longrightarrow> m' j = Some t)))"
proof (intro conjI impI)
  assume h: "ba \<in> set (find_children ir flt) \<and> bb \<in> set (find_children ir flt)
      \<and> infer_arg_type schema ba = Inr (Some (i, ta))
      \<and> infer_arg_type schema bb = Inr (Some (i, tb)) \<and> ta \<noteq> tb"
  show raises: "\<exists>e. infer_arg_types find_children ir schema = Inl e"
  proof (cases "infer_arg_types find_children ir schema")
    case (Inl e)
    then show ?thesis by blast
  next
    case (Inr m')
    then have "fold_err (arg_types_step schema) (find_children ir flt) Map.empty = Inr m'"
      by (simp add: infer_arg_types_def)
    from fold_arg_types_Inr [OF this] h have "m' i = Some ta" "m' i = Some tb" by blast+
    with h show ?thesis by simp
  qed
  assume ok: "\<forall>b\<in>set (find_children ir flt). \<exists>r. infer_arg_type schema b = Inr r"
  from raises obtain e where e: "infer_arg_types find_children ir schema = Inl e" by blast
  then have "fold_err (arg_types_step schema) (find_children ir flt) Map.empty = Inl e"
    by (simp add: infer_arg_types_def)
  from fold_arg_types_Inl [OF ok this] e
  show "infer_arg_types find_children ir schema = Inl ValueError_ambiguous_resolution" by simp
next
  assume "find_children ir flt = pre @ bb # post
        \<and> (\<forall>b\<in>set pre. \<exists>r. infer_arg_type schema b = Inr r)
        \<and> ba \<in> set pre \<and> infer_arg_type schema ba = Inr (Some (i, ta))
        \<and> infer_arg_type schema bb = Inr (Some (i, tb)) \<and> ta \<noteq> tb"
  then show "infer_arg_types find_children ir schema = Inl ValueError_ambiguous_resolution"
    using infer_arg_types_conflict_reached [of find_children ir pre bb post schema ba i ta tb]
    by blast
next
  assume "infer_arg_types find_children ir schema = Inr m"
  then have "fold_err (arg_types_step schema) (find_children ir flt) Map.empty = Inr m"
    by (simp add: infer_arg_types_def)
  from fold_arg_types_Inr [OF this]
  show "\<forall>b\<in>set (find_children ir flt). \<forall>j t.
            infer_arg_type schema b = Inr (Some (j, t)) \<longrightarrow> m j = Some t"
    by blast
next
  assume h: "(\<forall>b\<in>set (find_children ir flt). \<exists>r. infer_arg_type schema b = Inr r)
        \<and> (\<forall>c1\<in>set (find_children ir flt). \<forall>c2\<in>set (find_children ir flt). \<forall>j u1 u2.
              infer_arg_type schema c1 = Inr (Some (j, u1))
              \<and> infer_arg_type schema c2 = Inr (Some (j, u2)) \<longrightarrow> u1 = u2)"
  have empty: "\<forall>b\<in>set (find_children ir flt). \<forall>i t t'.
      infer_arg_type schema b = Inr (Some (i, t)) \<and> Map.empty i = Some t' \<longrightarrow> t' = t"
    by simp
  from fold_arg_types_agree [OF h [THEN conjunct1] empty h [THEN conjunct2]] obtain m' where
    m': "fold_err (arg_types_step schema) (find_children ir flt) Map.empty = Inr m'" by blast
  from fold_arg_types_Inr [OF m'] m'
  show "\<exists>m'. infer_arg_types find_children ir schema = Inr m'
           \<and> (\<forall>b\<in>set (find_children ir flt). \<forall>j t.
                 infer_arg_type schema b = Inr (Some (j, t)) \<longrightarrow> m' j = Some t)"
    by (simp add: infer_arg_types_def)
qed

text \<open>
  The scenario \<open>age > $0\<close> with \<open>name = $0\<close> raises the conflict error, also when an
  occurrence with an unsupported operator follows; \<open>age > $0\<close> with \<open>age < $0\<close> maps
  parameter 0 to the integer type.
\<close>

theorem infer_arg_types_ambiguous_witness:
  "infer_arg_types example_find_children (Sequence [age_gt_param, name_eq_param]) example_schema
     = Inl ValueError_ambiguous_resolution
   \<and> infer_arg_types example_find_children
         (Sequence [age_gt_param, name_eq_param, is_param]) example_schema
     = Inl ValueError_ambiguous_resolution
   \<and> (\<exists>m. infer_arg_types example_find_children (Sequence [age_gt_param, age_lt_param])
              example_schema = Inr m
          \<and> m 0 = Some (Proto ''std::int''))"
proof -
  let ?l = "Sequence [age_gt_param, name_eq_param, is_param]"
  have "example_find_children ?l flt = [age_gt_param] @ name_eq_param # [is_param]
        \<and> (\<forall>b\<in>set [age_gt_param]. \<exists>r. infer_arg_type example_schema b = Inr r)
        \<and> age_gt_param \<in> set [age_gt_param]
        \<and> infer_arg_type example_schema age_gt_param = Inr (Some (0, Proto ''std::int''))
        \<and> infer_arg_type example_schema name_eq_param = Inr (Some (0, Proto ''std::str''))
        \<and> Proto ''std::int'' \<noteq> Proto ''std::str''"
    by (simp add: example_binops example_children)
  then have late: "infer_arg_types example_find_children ?l example_schema
      = Inl ValueError_ambiguous_resolution"
    using infer_arg_types_ambiguous
      [where find_children = example_find_children and ir = ?l and schema = example_schema
         and pre = "[age_gt_param]" and bb = name_eq_param and post = "[is_param]"
         and ba = age_gt_param and i = 0
         and ta = "Proto ''std::int''" and tb = "Proto ''std::str''",
       THEN conjunct2, THEN conjunct1]
    by blast
  let ?c = "Sequence [age_gt_param, name_eq_param]"
  let ?a = "Sequence [age_gt_param, age_lt_param]"
  have h: "age_gt_param \<in> set (example_find_children ?c flt)
      \<and> name_eq_param \<in> set (example_find_children ?c flt)
      \<and> infer_arg_type example_schema age_gt_param = Inr (Some (0, Proto ''std::int''))
      \<and> infer_arg_type example_schema name_eq_param = Inr (Some (0, Proto ''std::str''))
      \<and> Proto ''std::int'' \<noteq> Proto ''std::str''"
    by (simp add: example_children example_binops)
  have ok: "\<forall>b\<in>set (example_find_children ?c flt). \<exists>r. infer_arg_type example_schema b = Inr r"
    by (simp add: example_children example_binops)
  have 1: "infer_arg_types example_find_children ?c example_schema
      = Inl ValueError_ambiguous_resolution"
    using infer_arg_types_ambiguous
      [where find_children = example_find_children and ir = ?c and schema = example_schema
         and ba = age_gt_param and bb = name_eq_param and i = 0
         and ta = "Proto ''std::int''" and tb = "Proto ''std::str''",
       THEN conjunct1, THEN mp, OF h, THEN conjunct2, THEN mp, OF ok] .
  have ok2: "(\<forall>b\<in>set (example_find_children ?a flt). \<exists>r. infer_arg_type example_schema b = Inr r)
      \<and> (\<forall>c1\<in>set (example_find_children ?a flt). \<forall>c2\<in>set (example_find_children ?a flt).
            \<forall>j u1 u2. infer_arg_type example_schema c1 = Inr (Some (j, u1))
              \<and> infer_arg_type example_schema c2 = Inr (Some (j, u2)) \<longrightarrow> u1 = u2)"
    by (simp add: example_children example_binops)
  from infer_arg_types_ambiguous
      [where find_children = example_find_children and ir = ?a and schema = example_schema,
       THEN conjunct2, THEN conjunct2, THEN conjunct2, THEN mp, OF ok2]
  obtain m' where m': "infer_arg_types example_find_children ?a example_schema = Inr m'"
    and all: "\<forall>b\<in>set (example_find_children ?a flt). \<forall>j t.
                 infer_arg_type example_schema b = Inr (Some (j, t)) \<longrightarrow> m' j = Some t"
    by blast
  have "age_gt_param \<in> set (example_find_children ?a flt)"
    by (simp add: example_children)
  with all example_binops(1) have "m' 0 = Some (Proto ''std::int'')" by blast
  with 1 late m' show ?thesis by blast
qed

text \<open>
  Claim C8 as stated fails: in a tree where \<open>age > $0\<close> and \<open>name = $0\<close> give parameter 0
  two different types, an occurrence with an unsupported operator that the loop meets
  first makes it raise the unsupported-operator error, not the conflict error.
\<close>

theorem infer_arg_types_unsupported_first:
  "infer_arg_types example_find_children (Sequence [is_param, age_gt_param, name_eq_param])
     example_schema = Inl ValueError_unsupported_operator
   \<and> age_gt_param \<in> set (example_find_children
                          (Sequence [is_param, age_gt_param, name_eq_param]) flt)
   \<and> name_eq_param \<in> set (example_find_children
                           (Sequence [is_param, age_gt_param, name_eq_param]) flt)
   \<and> infer_arg_type example_schema age_gt_param = Inr (Some (0, Proto ''std::int''))
   \<and> infer_arg_type example_schema name_eq_param = Inr (Some (0, Proto ''std::str''))
   \<and> infer_arg_types example_find_children (Sequence [is_param, age_gt_param, name_eq_param])
       example_schema \<noteq> Inl ValueError_ambiguous_resolution"
  by (simp add: infer_arg_types_def arg_types_step_def example_children example_binops
        example_unsupported)

section \<open>Sets shared between a path and its copy\<close>

text \<open>
  Every entity set that \<open>copy_path\<close> makes, for the node and for each ancestor, has a new
  \<open>rewrite_flags\<close> set but the \<open>users\<close> and \<open>joins\<close> objects of its source.
\<close>

lemma new_EntitySet_shares_users:
  "new_EntitySet h path p connect_to_origin = Inr (h', r) \<Longrightarrow>
     \<exists>q. deref h' r = Some (OEntitySet q)
        \<and> es_users q = es_users p \<and> es_joins q = es_joins p
        \<and> es_rewrite_flags q = VRef (length h) \<and> r = VRef (Suc (length h))"
  by (auto simp: new_EntitySet_def set_copy_def alloc_def deref_def nth_append
           split: option.splits obj.splits val.splits if_splits)

text \<open>
  Claim C1 at the entity set \<open>Person\<close> of the example store. The copy, at reference 4, has
  its own \<open>rewrite_flags\<close>, but its \<open>users\<close> is the set object of the source: adding \<open>x\<close>
  to the \<open>users\<close> of the copy changes the \<open>users\<close> of the source from \<open>{user}\<close> to
  \<open>{x, user}\<close>.
\<close>

theorem copy_path_shares_users:
  "copy_path 0 example_store (VRef 2) False = Some (Inr (copied_store, VRef 4))
   \<and> deref example_store (VRef 2) = Some (OEntitySet example_entity_set)
   \<and> deref copied_store (VRef 4) = Some (OEntitySet copied_entity_set)
   \<and> es_users copied_entity_set = es_users example_entity_set
   \<and> es_rewrite_flags copied_entity_set \<noteq> es_rewrite_flags example_entity_set
   \<and> elements_of copied_store (es_users example_entity_set) = Some {VAtom ''user''}
   \<and> (\<exists>h2. set_add_in_place copied_store (es_users copied_entity_set) (VAtom ''x'') = Inr h2
          \<and> elements_of h2 (es_users example_entity_set) = Some {VAtom ''x'', VAtom ''user''})"
proof (intro conjI)
  show "copy_path 0 example_store (VRef 2) False = Some (Inr (copied_store, VRef 4))"
    by (subst copy_path_def, subst copy_links.simps)
       (simp add: copy_node_def new_EntitySet_def set_copy_def alloc_def deref_def
          example_store_def example_entity_set_def copied_store_def copied_entity_set_def)
  show "\<exists>h2. set_add_in_place copied_store (es_users copied_entity_set) (VAtom ''x'') = Inr h2
          \<and> elements_of h2 (es_users example_entity_set) = Some {VAtom ''x'', VAtom ''user''}"
    by (simp add: set_add_in_place_def update_obj_def elements_of_def deref_def
          example_store_def example_entity_set_def copied_store_def copied_entity_set_def)
qed (simp_all add: deref_def elements_of_def example_store_def example_entity_set_def
       copied_store_def copied_entity_set_def)

end
